theory Spec2Isabelle
  imports Main "HOL-Library.Word"
begin

unbundle bit_operations_syntax

section \<open>Data: JavaScript strings and byte buffers\<close>

text \<open>
  Sentinel Vault, a client-side password vault. The model covers the cryptographic
  service and the credential generator (module \<open>lib/crypto\<close>, the second part of
  \<open>src/lib/supabase.ts\<close>), the queries of the record store (the first part of that
  file), the session store (\<open>store/vaultStore\<close>, in \<open>src/unnamed/part_000\<close>) and
  \<open>handleUnlock\<close> of \<open>src/app/vault/page.tsx\<close>.

  A JavaScript string is a sequence of UTF-16 code units and a \<open>Uint8Array\<close> is a
  sequence of bytes. \<open>js\<close> writes a string literal of the source as its code units.
\<close>

type_synonym codeunit = "16 word"
type_synonym jsstring = "codeunit list"
type_synonym byte = "8 word"
type_synonym bytes = "byte list"

definition js :: "string \<Rightarrow> jsstring" where
  "js s = map (\<lambda>c. of_nat (of_char c)) s"

section \<open>Credential generator: \<open>estimatePasswordStrength\<close>\<close>

text \<open>
  The four regular expressions of the source carry no flag, so \<open>test\<close> asks whether some
  code unit of the string lies in the class: \<open>/[a-z]/\<close>, \<open>/[A-Z]/\<close>, \<open>/[0-9]/\<close> and
  \<open>/[^a-zA-Z0-9]/\<close>.
\<close>

definition is_lower :: "codeunit \<Rightarrow> bool" where
  "is_lower u = (0x61 \<le> u \<and> u \<le> 0x7A)"

definition is_upper :: "codeunit \<Rightarrow> bool" where
  "is_upper u = (0x41 \<le> u \<and> u \<le> 0x5A)"

definition is_digit :: "codeunit \<Rightarrow> bool" where
  "is_digit u = (0x30 \<le> u \<and> u \<le> 0x39)"

definition is_non_alnum :: "codeunit \<Rightarrow> bool" where
  "is_non_alnum u = (\<not> is_lower u \<and> \<not> is_upper u \<and> \<not> is_digit u)"

definition test_lower :: "jsstring \<Rightarrow> bool" where
  "test_lower s = list_ex is_lower s"

definition test_upper :: "jsstring \<Rightarrow> bool" where
  "test_upper s = list_ex is_upper s"

definition test_digit :: "jsstring \<Rightarrow> bool" where
  "test_digit s = list_ex is_digit s"

definition test_non_alnum :: "jsstring \<Rightarrow> bool" where
  "test_non_alnum s = list_ex is_non_alnum s"

text \<open>
  \<open>estimatePasswordStrength\<close>, statement by statement: \<open>score\<close> starts at 0, each
  \<open>if (...) score += n\<close> is one rebinding, and the result is \<open>Math.min(score, 100)\<close>.
\<close>

definition estimatePasswordStrength :: "jsstring \<Rightarrow> int" where
  "estimatePasswordStrength password =
    (let score = 0;
         score = (if length password \<ge> 8 then score + 10 else score);
         score = (if length password \<ge> 12 then score + 10 else score);
         score = (if length password \<ge> 16 then score + 10 else score);
         score = (if length password \<ge> 20 then score + 10 else score);
         score = (if test_lower password then score + 10 else score);
         score = (if test_upper password then score + 10 else score);
         score = (if test_digit password then score + 10 else score);
         score = (if test_non_alnum password then score + 20 else score);
         score = (if length password \<ge> 16 \<and> test_lower password \<and> test_upper password
                     \<and> test_digit password \<and> test_non_alnum password
                  then score + 20 else score)
     in min score 100)"

text \<open>
  The additive heuristic as the specification words it: points for the length
  thresholds reached, points per character class present, the bonus, and the cap.
\<close>

definition length_points :: "jsstring \<Rightarrow> int" where
  "length_points p = 10 * int (length (filter (\<lambda>t. t \<le> length p) [8, 12, 16, 20]))"

definition class_points :: "jsstring \<Rightarrow> int" where
  "class_points p =
     (if test_lower p then 10 else 0) + (if test_upper p then 10 else 0)
     + (if test_digit p then 10 else 0) + (if test_non_alnum p then 20 else 0)"

definition all_four_classes :: "jsstring \<Rightarrow> bool" where
  "all_four_classes p = (test_lower p \<and> test_upper p \<and> test_digit p \<and> test_non_alnum p)"

definition bonus_points :: "jsstring \<Rightarrow> int" where
  "bonus_points p = (if all_four_classes p \<and> 16 \<le> length p then 20 else 0)"

definition strength_spec :: "jsstring \<Rightarrow> int" where
  "strength_spec p = min 100 (length_points p + class_points p + bonus_points p)"

section \<open>Credential generator: \<open>generatePassword\<close>\<close>

text \<open>
  Exceptions of the platform are values. \<open>crypto.getRandomValues\<close> is modelled by an
  entropy source, a function from positions to random values: filling an array of
  \<open>n\<close> elements reads positions \<open>0..<n\<close>. It throws \<open>QuotaExceededError\<close> when the
  array is longer than 65536 bytes.
\<close>

datatype js_error =
  InvalidCharacterError
  | OperationError
  | SyntaxError
  | QuotaExceededError
  | NotAuthenticated
  | StoreError
  | AccountLocked int

definition getRandomValues :: "(nat \<Rightarrow> 'a) \<Rightarrow> nat \<Rightarrow> nat \<Rightarrow> js_error + 'a list" where
  "getRandomValues source bytes_per_element n =
     (if 65536 < bytes_per_element * n then Inl QuotaExceededError
      else Inr (map source [0..<n]))"

record password_options =
  pw_length :: nat
  includeUppercase :: bool
  includeLowercase :: bool
  includeNumbers :: bool
  includeSymbols :: bool

definition uppercase :: jsstring where
  "uppercase = js ''ABCDEFGHIJKLMNOPQRSTUVWXYZ''"

definition lowercase :: jsstring where
  "lowercase = js ''abcdefghijklmnopqrstuvwxyz''"

definition numbers :: jsstring where
  "numbers = js ''0123456789''"

definition symbols :: jsstring where
  "symbols = js ''!@#$%^&*()_+-=[]{}|;:,.<>?''"

definition build_charset :: "password_options \<Rightarrow> jsstring" where
  "build_charset options =
    (let charset = [];
         charset = (if includeUppercase options then charset @ uppercase else charset);
         charset = (if includeLowercase options then charset @ lowercase else charset);
         charset = (if includeNumbers options then charset @ numbers else charset);
         charset = (if includeSymbols options then charset @ symbols else charset)
     in if charset = [] then lowercase @ numbers else charset)"

definition generatePassword :: "(nat \<Rightarrow> 32 word) \<Rightarrow> password_options \<Rightarrow> js_error + jsstring" where
  "generatePassword source options =
    (let charset = build_charset options in
     case getRandomValues source 4 (pw_length options) of
       Inl e \<Rightarrow> Inl e
     | Inr randomValues \<Rightarrow>
         Inr (map (\<lambda>i. charset ! (unat (randomValues ! i) mod length charset))
                  [0..<pw_length options]))"

definition all_classes_20 :: password_options where
  "all_classes_20 =
     \<lparr> pw_length = 20, includeUppercase = True, includeLowercase = True,
       includeNumbers = True, includeSymbols = True \<rparr>"

text \<open>A run of the entropy source: position \<open>i\<close> holds \<open>696873 * i\<close>.\<close>

definition sample_source :: "nat \<Rightarrow> 32 word" where
  "sample_source i = of_nat (696873 * i)"

section \<open>Base64: \<open>btoa\<close>, \<open>atob\<close> and the two buffer conversions\<close>

text \<open>
  \<open>btoa\<close> takes a binary string (every code unit at most 255, otherwise it throws
  \<open>InvalidCharacterError\<close>) and encodes three bytes as four characters of the alphabet
  \<open>A-Z a-z 0-9 + /\<close>, padding the last group with \<open>=\<close>.
  \<open>atob\<close> is the forgiving decoder of the HTML standard: it removes ASCII whitespace,
  removes one or two trailing \<open>=\<close> when the length is a multiple of four, rejects a
  length that leaves remainder one and any character outside the alphabet, and discards
  the unused low bits of the last group.
\<close>

definition is_ascii_whitespace :: "codeunit \<Rightarrow> bool" where
  "is_ascii_whitespace u = (u = 0x09 \<or> u = 0x0A \<or> u = 0x0C \<or> u = 0x0D \<or> u = 0x20)"

definition b64_char :: "nat \<Rightarrow> codeunit" where
  "b64_char i =
     (if i < 26 then of_nat (i + 65)
      else if i < 52 then of_nat (i + 71)
      else if i < 62 then of_nat (i - 4)
      else if i = 62 then 0x2B else 0x2F)"

definition b64_index :: "codeunit \<Rightarrow> nat option" where
  "b64_index u =
     (if 0x41 \<le> u \<and> u \<le> 0x5A then Some (unat u - 65)
      else if 0x61 \<le> u \<and> u \<le> 0x7A then Some (unat u - 71)
      else if 0x30 \<le> u \<and> u \<le> 0x39 then Some (unat u + 4)
      else if u = 0x2B then Some 62
      else if u = 0x2F then Some 63
      else None)"

fun btoa_groups :: "nat list \<Rightarrow> jsstring" where
  "btoa_groups (a # b # c # rest) =
     [b64_char (a div 4), b64_char ((a mod 4) * 16 + b div 16),
      b64_char ((b mod 16) * 4 + c div 64), b64_char (c mod 64)] @ btoa_groups rest"
| "btoa_groups [a, b] =
     [b64_char (a div 4), b64_char ((a mod 4) * 16 + b div 16), b64_char ((b mod 16) * 4), 0x3D]"
| "btoa_groups [a] = [b64_char (a div 4), b64_char ((a mod 4) * 16), 0x3D, 0x3D]"
| "btoa_groups [] = []"

definition btoa :: "jsstring \<Rightarrow> js_error + jsstring" where
  "btoa s = (if list_ex (\<lambda>u. 0xFF < u) s then Inl InvalidCharacterError
             else Inr (btoa_groups (map unat s)))"

definition strip_padding :: "jsstring \<Rightarrow> jsstring" where
  "strip_padding d =
     (if length d mod 4 = 0 \<and> d \<noteq> [] \<and> last d = 0x3D
      then (let d' = butlast d in if d' \<noteq> [] \<and> last d' = 0x3D then butlast d' else d')
      else d)"

fun atob_groups :: "nat list \<Rightarrow> nat list" where
  "atob_groups (p # q # r # s # rest) =
     [p * 4 + q div 16, (q mod 16) * 16 + r div 4, (r mod 4) * 64 + s] @ atob_groups rest"
| "atob_groups [p, q, r] = [p * 4 + q div 16, (q mod 16) * 16 + r div 4]"
| "atob_groups [p, q] = [p * 4 + q div 16]"
| "atob_groups [p] = []"
| "atob_groups [] = []"

definition atob :: "jsstring \<Rightarrow> js_error + jsstring" where
  "atob s =
     (let d = filter (\<lambda>u. \<not> is_ascii_whitespace u) s;
          d = strip_padding d
      in if length d mod 4 = 1 then Inl InvalidCharacterError
         else if list_ex (\<lambda>u. b64_index u = None) d then Inl InvalidCharacterError
         else Inr (map of_nat (atob_groups (map (\<lambda>u. the (b64_index u)) d))))"

text \<open>
  \<open>bufferToBase64\<close> appends \<open>String.fromCharCode(bytes[i])\<close> for every byte and calls
  \<open>btoa\<close>; \<open>base64ToBuffer\<close> calls \<open>atob\<close> and stores \<open>binary.charCodeAt(i)\<close> into a
  \<open>Uint8Array\<close>, which keeps the low eight bits.
\<close>

definition bufferToBase64 :: "bytes \<Rightarrow> js_error + jsstring" where
  "bufferToBase64 buffer = btoa (map ucast buffer)"

definition base64ToBuffer :: "jsstring \<Rightarrow> js_error + bytes" where
  "base64ToBuffer base64 =
     (case atob base64 of Inl e \<Rightarrow> Inl e | Inr binary \<Rightarrow> Inr (map ucast binary))"

text \<open>The sextets of the encoding without the padding, used to state what \<open>btoa\<close> produces.\<close>

fun body :: "nat list \<Rightarrow> nat list" where
  "body (a # b # c # rest) =
     [a div 4, (a mod 4) * 16 + b div 16, (b mod 16) * 4 + c div 64, c mod 64] @ body rest"
| "body [a, b] = [a div 4, (a mod 4) * 16 + b div 16, (b mod 16) * 4]"
| "body [a] = [a div 4, (a mod 4) * 16]"
| "body [] = []"

section \<open>Vault session store\<close>

text \<open>
  A \<open>CryptoKey\<close> is an opaque handle on the raw key bytes it was imported from; the keys
  of this program are never extractable.
\<close>

datatype cryptokey = CryptoKey bytes

record vault_item =
  item_id :: jsstring
  title :: jsstring
  ciphertext :: jsstring
  iv :: jsstring
  auth_tag :: jsstring
  category_id :: "jsstring option"
  is_favorite :: bool
  last_accessed :: jsstring
  last_modified :: jsstring
  created_at :: jsstring

record category =
  cat_id :: jsstring
  cat_name :: jsstring
  cat_icon :: jsstring
  cat_color :: jsstring
  cat_sort_order :: int

text \<open>\<open>DecryptedVaultItem extends VaultItem\<close>; \<open>url\<close> and \<open>notes\<close> are optional.\<close>

record decrypted_vault_item = vault_item +
  item_username :: jsstring
  item_password :: jsstring
  item_url :: "jsstring option"
  item_notes :: "jsstring option"

text \<open>
  \<open>Partial<DecryptedVaultItem>\<close>: every key may be absent (\<open>None\<close>). For the optional
  fields a key that is present may still hold \<open>undefined\<close> (\<open>Some None\<close>), which the
  spread copies over the old value.
\<close>

record item_updates =
  u_id :: "jsstring option"
  u_title :: "jsstring option"
  u_ciphertext :: "jsstring option"
  u_iv :: "jsstring option"
  u_auth_tag :: "jsstring option"
  u_category_id :: "jsstring option option"
  u_is_favorite :: "bool option"
  u_last_accessed :: "jsstring option"
  u_last_modified :: "jsstring option"
  u_created_at :: "jsstring option"
  u_username :: "jsstring option"
  u_password :: "jsstring option"
  u_url :: "jsstring option option"
  u_notes :: "jsstring option option"

definition or_old :: "'a option \<Rightarrow> 'a \<Rightarrow> 'a" where
  "or_old u old = (case u of None \<Rightarrow> old | Some v \<Rightarrow> v)"

text \<open>The object spread \<open>{ ...item, ...updates }\<close>.\<close>

definition spread_updates :: "decrypted_vault_item \<Rightarrow> item_updates \<Rightarrow> decrypted_vault_item" where
  "spread_updates item updates =
     \<lparr> item_id = or_old (u_id updates) (item_id item),
       title = or_old (u_title updates) (title item),
       ciphertext = or_old (u_ciphertext updates) (ciphertext item),
       iv = or_old (u_iv updates) (iv item),
       auth_tag = or_old (u_auth_tag updates) (auth_tag item),
       category_id = or_old (u_category_id updates) (category_id item),
       is_favorite = or_old (u_is_favorite updates) (is_favorite item),
       last_accessed = or_old (u_last_accessed updates) (last_accessed item),
       last_modified = or_old (u_last_modified updates) (last_modified item),
       created_at = or_old (u_created_at updates) (created_at item),
       item_username = or_old (u_username updates) (item_username item),
       item_password = or_old (u_password updates) (item_password item),
       item_url = or_old (u_url updates) (item_url item),
       item_notes = or_old (u_notes updates) (item_notes item) \<rparr>"

record vault_state =
  isAuthenticated :: bool
  userId :: "jsstring option"
  email :: "jsstring option"
  encryptionKey :: "cryptokey option"
  salt :: "jsstring option"
  isUnlocked :: bool
  items :: "decrypted_vault_item list"
  categories :: "category list"
  isLoading :: bool
  error :: "jsstring option"
  autoLockMinutes :: int
  clearClipboardSeconds :: int

definition initial_state :: vault_state where
  "initial_state =
     \<lparr> isAuthenticated = False, userId = None, email = None, encryptionKey = None,
       salt = None, isUnlocked = False, items = [], categories = [], isLoading = False,
       error = None, autoLockMinutes = 5, clearClipboardSeconds = 30 \<rparr>"

text \<open>
  Each action is one \<open>set\<close> call; \<open>set\<close> merges the given fields into the state and
  leaves the others as they are.
\<close>

definition setAuthenticated :: "jsstring \<Rightarrow> jsstring \<Rightarrow> vault_state \<Rightarrow> vault_state" where
  "setAuthenticated uid mail st =
     st\<lparr>isAuthenticated := True, userId := Some uid, email := Some mail\<rparr>"

definition setUnlocked :: "cryptokey \<Rightarrow> jsstring \<Rightarrow> vault_state \<Rightarrow> vault_state" where
  "setUnlocked key slt st =
     st\<lparr>encryptionKey := Some key, salt := Some slt, isUnlocked := True\<rparr>"

definition setVaultData ::
  "decrypted_vault_item list \<Rightarrow> category list \<Rightarrow> vault_state \<Rightarrow> vault_state" where
  "setVaultData its cats st = st\<lparr>items := its, categories := cats\<rparr>"

definition addItem :: "decrypted_vault_item \<Rightarrow> vault_state \<Rightarrow> vault_state" where
  "addItem item st = st\<lparr>items := item # items st\<rparr>"

definition updateItem :: "jsstring \<Rightarrow> item_updates \<Rightarrow> vault_state \<Rightarrow> vault_state" where
  "updateItem i updates st =
     st\<lparr>items := map (\<lambda>item. if item_id item = i then spread_updates item updates else item)
                     (items st)\<rparr>"

definition removeItem :: "jsstring \<Rightarrow> vault_state \<Rightarrow> vault_state" where
  "removeItem i st = st\<lparr>items := filter (\<lambda>item. item_id item \<noteq> i) (items st)\<rparr>"

definition setPreferences :: "int \<Rightarrow> int \<Rightarrow> vault_state \<Rightarrow> vault_state" where
  "setPreferences alm ccs st = st\<lparr>autoLockMinutes := alm, clearClipboardSeconds := ccs\<rparr>"

definition setLoading :: "bool \<Rightarrow> vault_state \<Rightarrow> vault_state" where
  "setLoading l st = st\<lparr>isLoading := l\<rparr>"

definition setError :: "jsstring option \<Rightarrow> vault_state \<Rightarrow> vault_state" where
  "setError e st = st\<lparr>error := e\<rparr>"

definition lockVault :: "vault_state \<Rightarrow> vault_state" where
  "lockVault st = st\<lparr>encryptionKey := None, salt := None, isUnlocked := False, items := []\<rparr>"

definition logout :: "vault_state \<Rightarrow> vault_state" where
  "logout st =
     st\<lparr>isAuthenticated := False, userId := None, email := None, encryptionKey := None,
        salt := None, isUnlocked := False, items := [], categories := []\<rparr>"

text \<open>The states of the store: the initial one and whatever the eleven actions make of it.\<close>

inductive reachable :: "vault_state \<Rightarrow> bool" where
  r_init: "reachable initial_state"
| r_setAuthenticated: "reachable st \<Longrightarrow> reachable (setAuthenticated uid mail st)"
| r_setUnlocked: "reachable st \<Longrightarrow> reachable (setUnlocked key slt st)"
| r_setVaultData: "reachable st \<Longrightarrow> reachable (setVaultData its cats st)"
| r_addItem: "reachable st \<Longrightarrow> reachable (addItem item st)"
| r_updateItem: "reachable st \<Longrightarrow> reachable (updateItem i updates st)"
| r_removeItem: "reachable st \<Longrightarrow> reachable (removeItem i st)"
| r_setPreferences: "reachable st \<Longrightarrow> reachable (setPreferences alm ccs st)"
| r_setLoading: "reachable st \<Longrightarrow> reachable (setLoading l st)"
| r_setError: "reachable st \<Longrightarrow> reachable (setError e st)"
| r_lockVault: "reachable st \<Longrightarrow> reachable (lockVault st)"
| r_logout: "reachable st \<Longrightarrow> reachable (logout st)"

definition key_present :: "vault_state \<Rightarrow> bool" where
  "key_present st = (encryptionKey st \<noteq> None \<and> salt st \<noteq> None)"

definition locked_clean :: "vault_state \<Rightarrow> bool" where
  "locked_clean st = (\<not> isUnlocked st \<and> encryptionKey st = None \<and> items st = [])"

section \<open>Cryptographic service\<close>

text \<open>
  The service is a thin layer over primitives of the Web platform that are no code of
  this repository: \<open>TextEncoder\<close>/\<open>TextDecoder\<close>, \<open>JSON.stringify\<close>/\<open>JSON.parse\<close> at
  the payload type, and \<open>crypto.subtle\<close> (PBKDF2, SHA-256, AES-GCM). They are the
  fields of a record that every function below takes as its first argument.
  \<open>json_parse\<close>, \<open>aes_gcm_encrypt\<close> and \<open>aes_gcm_decrypt\<close> return \<open>None\<close> where the
  primitive throws (\<open>SyntaxError\<close> for the first, \<open>OperationError\<close> for the other two:
  sealing is refused for a nonce it cannot use, such as the empty one, opening also
  when the tag does not verify); \<open>json_parse\<close> is \<open>JSON.parse\<close> read at the
  declared result type \<open>VaultItemPayload\<close>. The other primitives are taken to be available
  and to return, \<open>importKey\<close> among them: the raw key it is given is the slice of 32
  bytes, which is what AES-GCM with a key length of 256 imports.
\<close>

record vault_item_payload =
  p_username :: jsstring
  p_password :: jsstring
  p_url :: "jsstring option"
  p_notes :: "jsstring option"

record platform =
  text_encode :: "jsstring \<Rightarrow> bytes"
  text_decode :: "bytes \<Rightarrow> jsstring"
  json_stringify :: "vault_item_payload \<Rightarrow> jsstring"
  json_parse :: "jsstring \<Rightarrow> vault_item_payload option"
  pbkdf2_sha256 :: "bytes \<Rightarrow> bytes \<Rightarrow> nat \<Rightarrow> nat \<Rightarrow> bytes"
  sha256 :: "bytes \<Rightarrow> bytes"
  aes_gcm_encrypt :: "bytes \<Rightarrow> bytes \<Rightarrow> bytes \<Rightarrow> bytes option"
  aes_gcm_decrypt :: "bytes \<Rightarrow> bytes \<Rightarrow> bytes \<Rightarrow> bytes option"

definition PBKDF2_ITERATIONS :: nat where
  "PBKDF2_ITERATIONS = 600000"

definition SALT_LENGTH :: nat where
  "SALT_LENGTH = 16"

definition IV_LENGTH :: nat where
  "IV_LENGTH = 12"

definition KEY_LENGTH :: nat where
  "KEY_LENGTH = 256"

fun key_bytes :: "cryptokey \<Rightarrow> bytes" where
  "key_bytes (CryptoKey raw) = raw"

text \<open>\<open>Uint8Array.prototype.slice(begin, end)\<close> for \<open>0 \<le> begin \<le> end\<close>.\<close>

definition slice_bytes :: "nat \<Rightarrow> nat \<Rightarrow> 'a list \<Rightarrow> 'a list" where
  "slice_bytes begin end xs = take (end - begin) (drop begin xs)"

definition generateSalt :: "(nat \<Rightarrow> byte) \<Rightarrow> js_error + jsstring" where
  "generateSalt source =
     (case getRandomValues source 1 SALT_LENGTH of
        Inl e \<Rightarrow> Inl e
      | Inr slt \<Rightarrow> bufferToBase64 slt)"

definition generateIV :: "(nat \<Rightarrow> byte) \<Rightarrow> js_error + jsstring" where
  "generateIV source =
     (case getRandomValues source 1 IV_LENGTH of
        Inl e \<Rightarrow> Inl e
      | Inr nonce \<Rightarrow> bufferToBase64 nonce)"

text \<open>
  \<open>deriveKeys\<close> returns the pair \<open>{ encryptionKey, verificationKey }\<close>. Nothing in it
  looks at the length of the decoded salt.
\<close>

definition deriveKeys ::
  "platform \<Rightarrow> jsstring \<Rightarrow> jsstring \<Rightarrow> js_error + (cryptokey \<times> jsstring)" where
  "deriveKeys pf passwd saltBase64 =
    (let passwordKey = text_encode pf passwd in
     case base64ToBuffer saltBase64 of
       Inl e \<Rightarrow> Inl e
     | Inr slt \<Rightarrow>
        (let keyBytes = pbkdf2_sha256 pf passwordKey slt PBKDF2_ITERATIONS 512;
             encryptionKeyBytes = slice_bytes 0 32 keyBytes;
             verificationKeyBytes = slice_bytes 32 64 keyBytes;
             encKey = CryptoKey encryptionKeyBytes;
             verificationHashBuffer = sha256 pf verificationKeyBytes
         in case bufferToBase64 verificationHashBuffer of
              Inl e \<Rightarrow> Inl e
            | Inr verificationKey \<Rightarrow> Inr (encKey, verificationKey)))"

definition deriveEncryptionKey :: "platform \<Rightarrow> jsstring \<Rightarrow> jsstring \<Rightarrow> js_error + cryptokey" where
  "deriveEncryptionKey pf passwd saltBase64 =
     (case deriveKeys pf passwd saltBase64 of
        Inl e \<Rightarrow> Inl e
      | Inr (encKey, verificationKey) \<Rightarrow> Inr encKey)"

text \<open>
  \<open>encrypt\<close> has the optional third parameter \<open>ivBase64\<close>: when it is given and truthy
  (not the empty string) its decoded bytes are the nonce, otherwise twelve bytes are
  drawn from the entropy source. Nothing in \<open>encrypt\<close> looks at the nonce it was given:
  when \<open>crypto.subtle.encrypt\<close> refuses it, its \<open>OperationError\<close> is the outcome of
  \<open>encrypt\<close>. The result is \<open>{ ciphertext, iv }\<close>, both base64.
\<close>

definition encrypt ::
  "platform \<Rightarrow> (nat \<Rightarrow> byte) \<Rightarrow> jsstring \<Rightarrow> cryptokey \<Rightarrow> jsstring option
     \<Rightarrow> js_error + (jsstring \<times> jsstring)" where
  "encrypt pf source plaintext key ivBase64 =
    (case (case ivBase64 of
             Some s \<Rightarrow> if s \<noteq> [] then base64ToBuffer s
                       else getRandomValues source 1 IV_LENGTH
           | None \<Rightarrow> getRandomValues source 1 IV_LENGTH) of
       Inl e \<Rightarrow> Inl e
     | Inr nonce \<Rightarrow>
        (let encodedData = text_encode pf plaintext
         in case aes_gcm_encrypt pf (key_bytes key) nonce encodedData of
              None \<Rightarrow> Inl OperationError
            | Some encryptedBuffer \<Rightarrow>
               (case bufferToBase64 encryptedBuffer of
                  Inl e \<Rightarrow> Inl e
                | Inr ct \<Rightarrow>
                   (case bufferToBase64 nonce of
                      Inl e \<Rightarrow> Inl e
                    | Inr ivText \<Rightarrow> Inr (ct, ivText)))))"

definition decrypt :: "platform \<Rightarrow> jsstring \<Rightarrow> jsstring \<Rightarrow> cryptokey \<Rightarrow> js_error + jsstring" where
  "decrypt pf ciphertextBase64 ivBase64 key =
    (case base64ToBuffer ciphertextBase64 of
       Inl e \<Rightarrow> Inl e
     | Inr ct \<Rightarrow>
        (case base64ToBuffer ivBase64 of
           Inl e \<Rightarrow> Inl e
         | Inr nonce \<Rightarrow>
            (case aes_gcm_decrypt pf (key_bytes key) nonce ct of
               None \<Rightarrow> Inl OperationError
             | Some decryptedBuffer \<Rightarrow> Inr (text_decode pf decryptedBuffer))))"

definition encryptVaultItem ::
  "platform \<Rightarrow> (nat \<Rightarrow> byte) \<Rightarrow> vault_item_payload \<Rightarrow> cryptokey
     \<Rightarrow> js_error + (jsstring \<times> jsstring)" where
  "encryptVaultItem pf source payload key =
     encrypt pf source (json_stringify pf payload) key None"

definition decryptVaultItem ::
  "platform \<Rightarrow> jsstring \<Rightarrow> jsstring \<Rightarrow> cryptokey \<Rightarrow> js_error + vault_item_payload" where
  "decryptVaultItem pf ciphertextBase64 ivBase64 key =
     (case decrypt pf ciphertextBase64 ivBase64 key of
        Inl e \<Rightarrow> Inl e
      | Inr decrypted \<Rightarrow>
         (case json_parse pf decrypted of
            None \<Rightarrow> Inl SyntaxError
          | Some payload \<Rightarrow> Inr payload))"

text \<open>
  Names for what the service computes: the base64 text of a buffer, the outcome of
  \<open>encrypt\<close> for a given nonce, and the 64 bytes \<open>deriveBits\<close> is asked for.
\<close>

definition base64_text :: "bytes \<Rightarrow> jsstring" where
  "base64_text bs = btoa_groups (map unat bs)"

definition sealed ::
  "platform \<Rightarrow> jsstring \<Rightarrow> cryptokey \<Rightarrow> bytes \<Rightarrow> js_error + (jsstring \<times> jsstring)" where
  "sealed pf plaintext key nonce =
     (case aes_gcm_encrypt pf (key_bytes key) nonce (text_encode pf plaintext) of
        None \<Rightarrow> Inl OperationError
      | Some encryptedBuffer \<Rightarrow> Inr (base64_text encryptedBuffer, base64_text nonce))"

definition key_material :: "platform \<Rightarrow> jsstring \<Rightarrow> bytes \<Rightarrow> bytes" where
  "key_material pf passwd slt = pbkdf2_sha256 pf (text_encode pf passwd) slt 600000 512"

subsection \<open>What the service relies on from the platform\<close>

text \<open>
  The documented behaviour of the primitives, as far as the theorems below need it.
  Each contract is a property that AES-256-GCM has exactly, not with high probability
  only:

  \<^item> with a nonce of twelve bytes it seals, and opens what it sealed (the encoding
    of a JavaScript string is far below the length at which AES-GCM refuses a
    plaintext);

  \<^item> what it opens under a key and a nonce is a plaintext that it seals, under that
    key and nonce, to the very bytes presented (sealing is a function, and the tag is
    recomputed from the key, the nonce and the ciphertext);

  \<^item> under one key, two different nonces of twelve bytes never seal to the same
    bytes, neither one plaintext (\<open>aead_nonce_distinct\<close>) nor two
    (\<open>aead_nonce_bound\<close>): when the ciphertexts agree, the tags differ by the block
    cipher's values at the two counter blocks, and the block cipher is a permutation;

  \<^item> a sealed buffer is the plaintext's length and a tag of sixteen bytes.

  They do not say that a sealed buffer opens under one key only. No cipher with a
  key of 32 bytes and a tag of 16 can promise that, there being more keys than tags
  (\<open>key_collision\<close> below), and AES-GCM promises it with overwhelming probability
  only. That a sealed buffer with one bit flipped is rejected is a property of a key:
  AES-GCM has it for every key whose hash subkey is not zero, so it is stated of
  one key, \<open>tamper_evident_under\<close>.

  JSON text survives the UTF-8 encoder and decoder; \<open>JSON.parse\<close> reads
  back what \<open>JSON.stringify\<close> wrote for a payload; \<open>deriveBits\<close> returns as many bits
  as it is asked for.
\<close>

definition aead_correct :: "platform \<Rightarrow> bool" where
  "aead_correct pf =
     (\<forall>k nonce m. length nonce = 12
        \<longrightarrow> (\<exists>c. aes_gcm_encrypt pf k nonce m = Some c \<and> aes_gcm_decrypt pf k nonce c = Some m))"


definition aead_nonce_distinct :: "platform \<Rightarrow> bool" where
  "aead_nonce_distinct pf =
     (\<forall>k nonce nonce' m c c'.
        length nonce = 12 \<and> length nonce' = 12 \<and> nonce \<noteq> nonce'
        \<and> aes_gcm_encrypt pf k nonce m = Some c \<and> aes_gcm_encrypt pf k nonce' m = Some c'
        \<longrightarrow> c \<noteq> c')"

definition aead_nonce_bound :: "platform \<Rightarrow> bool" where
  "aead_nonce_bound pf =
     (\<forall>k nonce nonce' m m' c.
        length nonce = 12 \<and> length nonce' = 12
        \<and> aes_gcm_encrypt pf k nonce m = Some c \<and> aes_gcm_encrypt pf k nonce' m' = Some c
        \<longrightarrow> nonce = nonce')"





definition text_roundtrip :: "platform \<Rightarrow> bool" where
  "text_roundtrip pf =
     (\<forall>p. text_decode pf (text_encode pf (json_stringify pf p)) = json_stringify pf p)"

definition json_roundtrip :: "platform \<Rightarrow> bool" where
  "json_roundtrip pf = (\<forall>p. json_parse pf (json_stringify pf p) = Some p)"

definition kdf_length :: "platform \<Rightarrow> bool" where
  "kdf_length pf = (\<forall>pw slt n bits. length (pbkdf2_sha256 pf pw slt n bits) = bits div 8)"

section \<open>Record store\<close>

text \<open>
  The rows the queries select. \<open>failed_unlock_locked_until\<close> is a timestamp text or
  null; it is held as the epoch milliseconds that \<open>new Date(...)\<close> reads from it, and
  \<open>None\<close> stands for null (and for a text that is empty or no date, on which the
  lockout test of the page is false as well).
\<close>

record profile_row =
  profile_id :: jsstring
  profile_email :: jsstring
  kdf_salt :: jsstring
  verifier_hash :: jsstring
  failed_unlock_attempts :: int
  failed_unlock_locked_until :: "int option"
  auto_lock_minutes :: int
  clear_clipboard_seconds :: int
  profile_created_at :: jsstring
  last_login :: "jsstring option"

record vault_item_row = vault_item +
  user_id :: jsstring
  version :: int

text \<open>
  \<open>Partial<Database["public"]["Tables"]["profiles"]["Insert"]>\<close>, the argument type of
  \<open>updateProfile\<close>: the six columns of \<open>Insert\<close>, each optional.
\<close>

record profile_update =
  up_id :: "jsstring option"
  up_email :: "jsstring option"
  up_kdf_salt :: "jsstring option"
  up_verifier_hash :: "jsstring option"
  up_auto_lock_minutes :: "int option"
  up_clear_clipboard_seconds :: "int option"

text \<open>
  The remote store: the profile of each user id, the item rows in the order the query
  of \<open>getVaultItems\<close> asks for, and whether the store answers (when it does not, every
  call throws).
\<close>

record database =
  profiles :: "jsstring \<rightharpoonup> profile_row"
  vault_item_rows :: "vault_item_row list"
  available :: bool

definition getProfile :: "database \<Rightarrow> jsstring \<Rightarrow> js_error + profile_row" where
  "getProfile d uid =
     (if \<not> available d then Inl StoreError
      else case profiles d uid of None \<Rightarrow> Inl StoreError | Some row \<Rightarrow> Inr row)"

definition update_row :: "profile_row \<Rightarrow> profile_update \<Rightarrow> profile_row" where
  "update_row row updates =
     row\<lparr> profile_id := or_old (up_id updates) (profile_id row),
          profile_email := or_old (up_email updates) (profile_email row),
          kdf_salt := or_old (up_kdf_salt updates) (kdf_salt row),
          verifier_hash := or_old (up_verifier_hash updates) (verifier_hash row),
          auto_lock_minutes := or_old (up_auto_lock_minutes updates) (auto_lock_minutes row),
          clear_clipboard_seconds :=
            or_old (up_clear_clipboard_seconds updates) (clear_clipboard_seconds row) \<rparr>"

definition updateProfile :: "database \<Rightarrow> jsstring \<Rightarrow> profile_update \<Rightarrow> js_error + database" where
  "updateProfile d uid updates =
     (if \<not> available d then Inl StoreError
      else case profiles d uid of
             None \<Rightarrow> Inr d
           | Some row \<Rightarrow> Inr (d\<lparr>profiles := (profiles d)(uid \<mapsto> update_row row updates)\<rparr>))"

definition getVaultItems :: "database \<Rightarrow> jsstring \<Rightarrow> js_error + vault_item_row list" where
  "getVaultItems d uid =
     (if \<not> available d then Inl StoreError
      else Inr (filter (\<lambda>row. user_id row = uid) (vault_item_rows d)))"

section \<open>Unlocking the vault: \<open>handleUnlock\<close>\<close>

text \<open>
  What \<open>handleUnlock\<close> reads and writes: the remote store, the session store, and the
  page's own state (the password field \<open>showPassword\<close>, \<open>loading\<close> and \<open>error\<close>).
  \<open>now\<close> is the clock, in epoch milliseconds; the lockout test reads it twice (for
  the comparison and for the minutes of the message), here at the same instant.
\<close>

record world =
  db :: database
  store :: vault_state
  showPassword :: jsstring
  loading :: bool
  page_error :: "js_error option"

text \<open>\<open>Math.ceil((lockedUntil.getTime() - Date.now()) / 60000)\<close>.\<close>

definition lockout_minutes :: "int \<Rightarrow> int \<Rightarrow> int" where
  "lockout_minutes lockedUntil now = - ((now - lockedUntil) div 60000)"

text \<open>
  The loop over the fetched rows: a row that opens is pushed with its payload fields, a
  row whose \<open>decryptVaultItem\<close> throws is logged and skipped. The pushed object is
  kept at its declared type \<open>DecryptedVaultItem\<close> (the spread also copies \<open>user_id\<close>
  and \<open>version\<close>, which no code reads from it).
\<close>

fun decrypt_items :: "platform \<Rightarrow> cryptokey \<Rightarrow> vault_item_row list \<Rightarrow> decrypted_vault_item list" where
  "decrypt_items pf key [] = []"
| "decrypt_items pf key (item # rest) =
     (case decryptVaultItem pf (ciphertext item) (iv item) key of
        Inl e \<Rightarrow> decrypt_items pf key rest
      | Inr payload \<Rightarrow>
          \<lparr> item_id = item_id item, title = title item, ciphertext = ciphertext item,
            iv = iv item, auth_tag = auth_tag item, category_id = category_id item,
            is_favorite = is_favorite item, last_accessed = last_accessed item,
            last_modified = last_modified item, created_at = created_at item,
            item_username = p_username payload, item_password = p_password payload,
            item_url = p_url payload, item_notes = p_notes payload \<rparr>
          # decrypt_items pf key rest)"

text \<open>The \<open>try\<close> block: the first \<open>throw\<close> ends it, otherwise the new session store.\<close>

definition unlock_try :: "platform \<Rightarrow> int \<Rightarrow> world \<Rightarrow> js_error + vault_state" where
  "unlock_try pf now w =
    (case userId (store w) of
       None \<Rightarrow> Inl NotAuthenticated
     | Some uid \<Rightarrow>
        if uid = [] then Inl NotAuthenticated
        else
          (case getProfile (db w) uid of
             Inl e \<Rightarrow> Inl e
           | Inr profile \<Rightarrow>
              (case (case failed_unlock_locked_until profile of
                       None \<Rightarrow> None
                     | Some lockedUntil \<Rightarrow>
                         if now < lockedUntil
                         then Some (AccountLocked (lockout_minutes lockedUntil now))
                         else None) of
                 Some e \<Rightarrow> Inl e
               | None \<Rightarrow>
                  (case deriveEncryptionKey pf (showPassword w) (kdf_salt profile) of
                     Inl e \<Rightarrow> Inl e
                   | Inr key \<Rightarrow>
                      (case getVaultItems (db w) uid of
                         Inl e \<Rightarrow> Inl e
                       | Inr vaultItems \<Rightarrow>
                           Inr (setVaultData (decrypt_items pf key vaultItems) []
                                  (setUnlocked key (kdf_salt profile) (store w))))))))"

definition handleUnlock :: "platform \<Rightarrow> int \<Rightarrow> world \<Rightarrow> world" where
  "handleUnlock pf now w =
    (let w1 = w\<lparr>loading := True, page_error := None\<rparr> in
     case unlock_try pf now w1 of
       Inl e \<Rightarrow> w1\<lparr>page_error := Some e, loading := False\<rparr>
     | Inr st \<Rightarrow> w1\<lparr>store := st, showPassword := [], loading := False\<rparr>)"

text \<open>
  The conditions under which the \<open>try\<close> block of \<open>handleUnlock\<close> runs to its end: a
  user id, a profile that can be fetched and is not locked out, a salt text that
  decodes, and item rows that can be fetched. The typed password does not occur.
\<close>

definition not_locked :: "profile_row \<Rightarrow> int \<Rightarrow> bool" where
  "not_locked profile now =
     (case failed_unlock_locked_until profile of None \<Rightarrow> True | Some t \<Rightarrow> t \<le> now)"

definition returns :: "js_error + 'a \<Rightarrow> bool" where
  "returns r = (case r of Inl e \<Rightarrow> False | Inr v \<Rightarrow> True)"

definition unlock_ready :: "world \<Rightarrow> int \<Rightarrow> bool" where
  "unlock_ready w now =
     (case userId (store w) of
        None \<Rightarrow> False
      | Some uid \<Rightarrow>
          uid \<noteq> []
          \<and> (case getProfile (db w) uid of
                Inl e \<Rightarrow> False
              | Inr profile \<Rightarrow>
                  not_locked profile now
                  \<and> returns (base64ToBuffer (kdf_salt profile))
                  \<and> returns (getVaultItems (db w) uid)))"

section \<open>A reference platform for concrete runs\<close>

text \<open>
  To run the model on concrete inputs the primitives need values. This platform is a
  stand-in that satisfies the contracts above, not the Web platform: text is encoded two
  bytes per code unit, a payload is written as its fields one after the other, each
  framed (a 1 before every element and a 0 at the end), the key material is the
  password bytes followed by the salt and zeros. A sealed message has the shape of
  AES-GCM's, the plaintext's length and a tag of sixteen bytes: it is the plaintext
  followed by the nonce cut or zero-filled to twelve bytes, the exclusive or of all
  bytes of the key and the plaintext, and the first three bytes of the key. An empty
  nonce is refused, as \<open>crypto.subtle\<close> refuses it.
\<close>

fun frame :: "'a::len word list \<Rightarrow> 'a word list" where
  "frame [] = [0]"
| "frame (x # xs) = 1 # x # frame xs"

fun unframe :: "'a::len word list \<Rightarrow> ('a word list \<times> 'a word list) option" where
  "unframe [] = None"
| "unframe [t] = (if t = 0 then Some ([], []) else None)"
| "unframe (t # x # rest) =
     (if t = 0 then Some ([], x # rest)
      else case unframe rest of None \<Rightarrow> None | Some (s, r) \<Rightarrow> Some (x # s, r))"

definition frame_opt :: "jsstring option \<Rightarrow> jsstring" where
  "frame_opt v = (case v of None \<Rightarrow> [0] | Some s \<Rightarrow> 1 # frame s)"

fun unframe_opt :: "jsstring \<Rightarrow> (jsstring option \<times> jsstring) option" where
  "unframe_opt [] = None"
| "unframe_opt (t # rest) =
     (if t = 0 then Some (None, rest)
      else case unframe rest of None \<Rightarrow> None | Some (s, r) \<Rightarrow> Some (Some s, r))"

fun demo_text_encode :: "jsstring \<Rightarrow> bytes" where
  "demo_text_encode [] = []"
| "demo_text_encode (u # rest) = ucast (drop_bit 8 u) # ucast u # demo_text_encode rest"

fun demo_text_decode :: "bytes \<Rightarrow> jsstring" where
  "demo_text_decode (hi # lo # rest) = (push_bit 8 (ucast hi) OR ucast lo) # demo_text_decode rest"
| "demo_text_decode [b] = []"
| "demo_text_decode [] = []"

definition demo_json_stringify :: "vault_item_payload \<Rightarrow> jsstring" where
  "demo_json_stringify p =
     frame (p_username p) @ frame (p_password p) @ frame_opt (p_url p) @ frame_opt (p_notes p)"

definition demo_json_parse :: "jsstring \<Rightarrow> vault_item_payload option" where
  "demo_json_parse s =
     (case unframe s of None \<Rightarrow> None | Some (u, r1) \<Rightarrow>
      case unframe r1 of None \<Rightarrow> None | Some (pw, r2) \<Rightarrow>
      case unframe_opt r2 of None \<Rightarrow> None | Some (l, r3) \<Rightarrow>
      case unframe_opt r3 of None \<Rightarrow> None | Some (n, r4) \<Rightarrow>
      if r4 = [] then Some \<lparr>p_username = u, p_password = pw, p_url = l, p_notes = n\<rparr> else None)"

definition demo_pbkdf2 :: "bytes \<Rightarrow> bytes \<Rightarrow> nat \<Rightarrow> nat \<Rightarrow> bytes" where
  "demo_pbkdf2 pw slt n bits = take (bits div 8) (pw @ slt @ replicate (bits div 8) 0)"

definition demo_sha256 :: "bytes \<Rightarrow> bytes" where
  "demo_sha256 m = take 32 (m @ replicate 32 0)"

fun xor_sum :: "bytes \<Rightarrow> byte" where
  "xor_sum [] = 0"
| "xor_sum (b # bs) = b XOR xor_sum bs"

definition pad_to :: "nat \<Rightarrow> bytes \<Rightarrow> bytes" where
  "pad_to n bs = take n (bs @ replicate n 0)"

definition demo_tag :: "bytes \<Rightarrow> bytes \<Rightarrow> bytes \<Rightarrow> bytes" where
  "demo_tag k nonce m = pad_to 12 nonce @ xor_sum (k @ m) # pad_to 3 k"

definition demo_aes_gcm_encrypt :: "bytes \<Rightarrow> bytes \<Rightarrow> bytes \<Rightarrow> bytes option" where
  "demo_aes_gcm_encrypt k nonce m =
     (if nonce = [] then None else Some (m @ demo_tag k nonce m))"

definition demo_aes_gcm_decrypt :: "bytes \<Rightarrow> bytes \<Rightarrow> bytes \<Rightarrow> bytes option" where
  "demo_aes_gcm_decrypt k nonce c =
     (let n = length c - 16;
          m = take n c
      in if nonce \<noteq> [] \<and> 16 \<le> length c \<and> drop n c = demo_tag k nonce m
         then Some m else None)"

definition demo_platform :: platform where
  "demo_platform =
     \<lparr> text_encode = demo_text_encode, text_decode = demo_text_decode,
       json_stringify = demo_json_stringify, json_parse = demo_json_parse,
       pbkdf2_sha256 = demo_pbkdf2, sha256 = demo_sha256,
       aes_gcm_encrypt = demo_aes_gcm_encrypt, aes_gcm_decrypt = demo_aes_gcm_decrypt \<rparr>"

section \<open>A concrete account\<close>

text \<open>
  A concrete account for the runs below: the user registered with one password, the
  store holds the profile with the salt and one item that \<open>encryptVaultItem\<close> sealed
  under the registration key; \<open>sample_world\<close> is the page after sign-in, with some
  password typed into the unlock form.
\<close>

definition sample_payload :: vault_item_payload where
  "sample_payload =
     \<lparr> p_username = js ''u@example.com'', p_password = js ''p@ss1234'',
       p_url = Some (js ''https://example.com''), p_notes = None \<rparr>"

definition sample_bytes :: "nat \<Rightarrow> byte" where
  "sample_bytes i = of_nat (37 * i + 11)"

text \<open>A second run of the entropy source, different from \<open>sample_bytes\<close>.\<close>

definition other_bytes :: "nat \<Rightarrow> byte" where
  "other_bytes i = of_nat (200 - i)"

definition registration_password :: jsstring where
  "registration_password = js ''VeryStrongPass123!!''"

definition wrong_password :: jsstring where
  "wrong_password = js ''WrongPass1!!''"

definition sample_salt :: jsstring where
  "sample_salt = js ''c2FsdHNhbHRzYWx0c2FsdA==''"

definition sample_salt_bytes :: bytes where
  "sample_salt_bytes = [115, 97, 108, 116, 115, 97, 108, 116, 115, 97, 108, 116, 115, 97, 108, 116]"

definition registration_key :: cryptokey where
  "registration_key =
     CryptoKey (slice_bytes 0 32 (key_material demo_platform registration_password sample_salt_bytes))"

definition wrong_key :: cryptokey where
  "wrong_key =
     CryptoKey (slice_bytes 0 32 (key_material demo_platform wrong_password sample_salt_bytes))"

definition sample_sealed :: "jsstring \<times> jsstring" where
  "sample_sealed =
     (case encryptVaultItem demo_platform sample_bytes sample_payload registration_key of
        Inl e \<Rightarrow> ([], [])
      | Inr pair \<Rightarrow> pair)"

definition sample_uid :: jsstring where
  "sample_uid = js ''user-1''"

definition sample_profile :: profile_row where
  "sample_profile =
     \<lparr> profile_id = sample_uid, profile_email = js ''u@example.com'', kdf_salt = sample_salt,
       verifier_hash =
         base64_text (sha256 demo_platform
           (slice_bytes 32 64 (key_material demo_platform registration_password sample_salt_bytes))),
       failed_unlock_attempts = 0, failed_unlock_locked_until = None,
       auto_lock_minutes = 5, clear_clipboard_seconds = 30,
       profile_created_at = js ''2024-01-01T00:00:00Z'', last_login = None \<rparr>"

definition sample_row :: vault_item_row where
  "sample_row =
     \<lparr> item_id = js ''item-1'', title = js ''Example'', ciphertext = fst sample_sealed,
       iv = snd sample_sealed, auth_tag = [], category_id = None, is_favorite = False,
       last_accessed = js ''2024-01-01T00:00:00Z'', last_modified = js ''2024-01-01T00:00:00Z'',
       created_at = js ''2024-01-01T00:00:00Z'', user_id = sample_uid, version = 1 \<rparr>"

definition sample_db :: "profile_row \<Rightarrow> database" where
  "sample_db profile =
     \<lparr> profiles = [sample_uid \<mapsto> profile], vault_item_rows = [sample_row], available = True \<rparr>"

definition sample_world :: "profile_row \<Rightarrow> jsstring \<Rightarrow> world" where
  "sample_world profile typed =
     \<lparr> db = sample_db profile,
       store = setAuthenticated sample_uid (js ''u@example.com'') initial_state,
       showPassword = typed, loading = False, page_error = None \<rparr>"

text \<open>Two more profiles: one locked out until minute two, one with three counted failures.\<close>

definition locked_profile :: profile_row where
  "locked_profile =
     sample_profile\<lparr>failed_unlock_attempts := 5, failed_unlock_locked_until := Some 120000\<rparr>"

definition counted_profile :: profile_row where
  "counted_profile = sample_profile\<lparr>failed_unlock_attempts := 3\<rparr>"

section \<open>Theorems\<close>

subsection \<open>Strength estimate\<close>

lemma length_points_cases:
  "length_points p =
     (if length p \<ge> 8 then 10 else 0) + (if length p \<ge> 12 then 10 else 0)
     + (if length p \<ge> 16 then 10 else 0) + (if length p \<ge> 20 then 10 else 0)"
  by (simp add: length_points_def)

text \<open>
  Claim C9. For every input string \<open>estimatePasswordStrength\<close> returns a score between 0
  and 100 that is the additive heuristic: 10 points per length threshold reached
  (8, 12, 16, 20), 10 points each for a lowercase letter, an uppercase letter and a
  digit, 20 points for a non-alphanumeric character, 20 more when all four classes
  occur and the length is at least 16, the total capped at 100.
\<close>

theorem estimatePasswordStrength_additive:
  "estimatePasswordStrength p = strength_spec p
   \<and> 0 \<le> estimatePasswordStrength p \<and> estimatePasswordStrength p \<le> 100"
proof -
  have eq: "estimatePasswordStrength p = strength_spec p"
    unfolding estimatePasswordStrength_def strength_spec_def length_points_cases
      class_points_def bonus_points_def all_four_classes_def Let_def
    by simp
  have lo: "0 \<le> length_points p + class_points p + bonus_points p"
    unfolding length_points_cases class_points_def bonus_points_def by simp
  from eq lo show ?thesis
    by (simp add: strength_spec_def)
qed

subsection \<open>Base64 round trip\<close>

lemma unat_codeunit: "n < 65536 \<Longrightarrow> unat (of_nat n :: codeunit) = n"
  by (simp add: unat_of_nat)

lemma unat_b64_char:
  "i < 64 \<Longrightarrow> unat (b64_char i) =
     (if i < 26 then i + 65 else if i < 52 then i + 71 else if i < 62 then i - 4
      else if i = 62 then 43 else 47)"
  unfolding b64_char_def
  by (simp add: unat_codeunit del: of_nat_add of_nat_diff)

lemma b64_index_char: "i < 64 \<Longrightarrow> b64_index (b64_char i) = Some i"
  unfolding b64_index_def word_le_nat_alt word_unat_eq_iff
  by (simp add: unat_b64_char) arith

lemma b64_char_plain: "i < 64 \<Longrightarrow> b64_char i \<noteq> 0x3D \<and> \<not> is_ascii_whitespace (b64_char i)"
  unfolding is_ascii_whitespace_def word_unat_eq_iff
  by (simp add: unat_b64_char) arith

lemma body_lt: "\<forall>a\<in>set bs. a < 256 \<Longrightarrow> \<forall>x\<in>set (body bs). x < 64"
  by (induction bs rule: body.induct) auto

lemma btoa_groups_body:
  "btoa_groups bs = map b64_char (body bs) @ replicate ((3 - length bs mod 3) mod 3) 0x3D"
  by (induction bs rule: body.induct) (simp_all add: mod_Suc numeral_2_eq_2)

lemma length_body: "length (body bs) = (4 * length bs + 2) div 3"
  by (induction bs rule: body.induct) simp_all

lemma sextet_hi: "x < (k::nat) \<Longrightarrow> (m * k + x) div k = m"
  by simp

lemma sextet_lo: "x < (k::nat) \<Longrightarrow> (m * k + x) mod k = x"
  by simp

lemma atob_groups_body: "\<forall>a\<in>set bs. a < 256 \<Longrightarrow> atob_groups (body bs) = bs"
proof (induction bs rule: body.induct)
  case (1 a b c rest)
  have b: "b div 16 < 16" and c: "c div 64 < 4" using 1 by auto
  have "(b mod 16 * 4 + c div 64) div 4 = b mod 16" "(b mod 16 * 4 + c div 64) mod 4 = c div 64"
    using c by simp_all
  moreover have "(a mod 4 * 16 + b div 16) div 16 = a mod 4" "(a mod 4 * 16 + b div 16) mod 16 = b div 16"
    using b by simp_all
  ultimately show ?case using 1 by simp
next
  case (2 a b)
  have b: "b div 16 < 16" using 2 by auto
  have "(a mod 4 * 16 + b div 16) div 16 = a mod 4" "(a mod 4 * 16 + b div 16) mod 16 = b div 16"
    using b by simp_all
  then show ?case by simp
next
  case (3 a)
  then show ?case by simp
next
  case 4
  then show ?case by simp
qed

lemma length_btoa_groups: "length (btoa_groups bs) mod 4 = 0"
  by (induction bs rule: btoa_groups.induct) simp_all

lemma length_body_mod: "length (body bs) mod 4 \<noteq> 1"
  by (induction bs rule: body.induct) simp_all

lemma pad_cases: "(3 - n mod 3) mod 3 = (0::nat) \<or> (3 - n mod 3) mod 3 = 1 \<or> (3 - n mod 3) mod 3 = 2"
  by arith

lemma strip_padding_encoded:
  assumes sx: "\<forall>x\<in>set sx. x < 64"
    and k: "k = 0 \<or> k = 1 \<or> k = 2"
    and len: "(length sx + k) mod 4 = 0"
    and ne: "0 < k \<Longrightarrow> sx \<noteq> []"
  shows "strip_padding (map b64_char sx @ replicate k 0x3D) = map b64_char sx"
proof -
  have last_ok: "sx \<noteq> [] \<Longrightarrow> last (map b64_char sx) \<noteq> 0x3D"
    using sx b64_char_plain by (simp add: last_map)
  from k show ?thesis
  proof (elim disjE)
    assume "k = 0"
    then show ?thesis using last_ok by (auto simp: strip_padding_def)
  next
    assume k1: "k = 1"
    then have "sx \<noteq> []" using ne by simp
    then show ?thesis using k1 len last_ok by (simp add: strip_padding_def)
  next
    assume k2: "k = 2"
    then have "sx \<noteq> []" using ne by simp
    then show ?thesis using k2 len last_ok
      by (simp add: strip_padding_def numeral_2_eq_2 butlast_append)
  qed
qed

lemma body_nonempty: "bs \<noteq> [] \<Longrightarrow> body bs \<noteq> []"
  by (induction bs rule: body.induct) simp_all

lemma atob_btoa_groups:
  assumes "\<forall>a\<in>set bs. a < 256"
  shows "atob (btoa_groups bs) = Inr (map of_nat bs)"
proof -
  let ?sx = "body bs"
  let ?k = "(3 - length bs mod 3) mod 3"
  have sx: "\<forall>x\<in>set ?sx. x < 64" using assms by (rule body_lt)
  have enc: "btoa_groups bs = map b64_char ?sx @ replicate ?k 0x3D"
    by (rule btoa_groups_body)
  have nows: "filter (\<lambda>u. \<not> is_ascii_whitespace u) (btoa_groups bs) = btoa_groups bs"
    unfolding enc using sx b64_char_plain
    by (auto simp: filter_id_conv is_ascii_whitespace_def)
  have len: "(length ?sx + ?k) mod 4 = 0"
    using length_btoa_groups [of bs] unfolding enc by simp
  have ne: "0 < ?k \<Longrightarrow> ?sx \<noteq> []"
    by (rule body_nonempty) auto
  have strip: "strip_padding (btoa_groups bs) = map b64_char ?sx"
    unfolding enc by (rule strip_padding_encoded [OF sx pad_cases len ne])
  have valid: "\<not> list_ex (\<lambda>u. b64_index u = None) (map b64_char ?sx)"
    using sx by (simp add: list_ex_iff b64_index_char)
  have idx: "map (\<lambda>u. the (b64_index u)) (map b64_char ?sx) = ?sx"
    using sx by (simp add: map_idI b64_index_char)
  show ?thesis
    unfolding atob_def nows Let_def strip idx atob_groups_body [OF assms]
    using valid length_body_mod [of bs] by simp
qed

lemma unat_byte_lt: "unat (b :: byte) < 256"
  using unsigned_less [of b, where 'a = nat] by simp

lemma unat_ucast_byte: "unat (ucast (b :: byte) :: codeunit) = unat b"
proof -
  have "unat b < 2 ^ 16" using unat_byte_lt [of b] by simp
  then show ?thesis by (simp add: unsigned_ucast_eq take_bit_nat_eq_self)
qed

lemma ucast_byte_le: "(ucast (b :: byte) :: codeunit) \<le> 0xFF"
  using unat_byte_lt [of b] by (simp add: word_le_nat_alt unat_ucast_byte)

lemma bufferToBase64_returns: "bufferToBase64 bs = Inr (btoa_groups (map unat bs))"
proof -
  have "\<not> list_ex (\<lambda>u. 0xFF < u) (map ucast bs :: jsstring)"
    using ucast_byte_le by (auto simp: list_ex_iff not_less)
  moreover have "map unat (map ucast bs :: jsstring) = map unat bs"
    by (simp add: unat_ucast_byte)
  ultimately show ?thesis
    unfolding bufferToBase64_def btoa_def by (simp only: if_False)
qed

lemma base64ToBuffer_encoded: "base64ToBuffer (btoa_groups (map unat bs)) = Inr bs"
proof -
  have lt: "\<forall>a\<in>set (map unat bs). a < 256"
    using unat_byte_lt by auto
  have dec: "map ucast (map of_nat (map unat bs) :: jsstring) = bs"
  proof -
    have h: "ucast (ucast b :: codeunit) = b" for b :: byte
      by (simp add: ucast_up_ucast_id is_up)
    show ?thesis unfolding map_map by (rule map_idI) (simp add: h)
  qed
  show ?thesis
    unfolding base64ToBuffer_def atob_btoa_groups [OF lt] by (simp only: sum.case dec)
qed

lemma base64_roundtrip:
  "\<exists>s. bufferToBase64 bs = Inr s \<and> base64ToBuffer s = Inr bs"
  by (simp add: bufferToBase64_returns base64ToBuffer_encoded)

subsection \<open>Password generator\<close>

lemma generatePassword_length:
  "generatePassword source options = Inr pw \<Longrightarrow> length pw = pw_length options"
  by (auto simp: generatePassword_def Let_def split: sum.splits)

lemma generatePassword_returns:
  "4 * pw_length options \<le> 65536 \<Longrightarrow> \<exists>pw. generatePassword source options = Inr pw"
  by (simp add: generatePassword_def getRandomValues_def Let_def)

lemma build_charset_nonempty: "build_charset options \<noteq> []"
  by (simp add: build_charset_def Let_def uppercase_def lowercase_def numbers_def symbols_def
      js_def)

lemma charset_all_classes: "build_charset all_classes_20 = uppercase @ lowercase @ numbers @ symbols"
  by (simp add: build_charset_def all_classes_20_def uppercase_def js_def)

text \<open>
  Claim C8, evaluated on one run. With length 20 and the four classes enabled, the
  entropy values \<open>696873 * i\<close> select the first twenty characters of the charset: the
  password has 20 characters and all of them are uppercase letters, so three of the
  four enabled classes are missing.
\<close>

theorem generatePassword_misses_classes:
  "generatePassword sample_source all_classes_20 = Inr (js ''ABCDEFGHIJKLMNOPQRST'')
   \<and> length (js ''ABCDEFGHIJKLMNOPQRST'') = 20
   \<and> test_upper (js ''ABCDEFGHIJKLMNOPQRST'')
   \<and> \<not> test_lower (js ''ABCDEFGHIJKLMNOPQRST'')
   \<and> \<not> test_digit (js ''ABCDEFGHIJKLMNOPQRST'')
   \<and> \<not> test_non_alnum (js ''ABCDEFGHIJKLMNOPQRST'')"
proof -
  have len: "length uppercase + (length lowercase + (length numbers + length symbols)) = 88"
    by (simp add: uppercase_def lowercase_def numbers_def symbols_def js_def)
  have gen: "generatePassword sample_source all_classes_20
             = Inr (map (\<lambda>i. (uppercase @ lowercase @ numbers @ symbols)
                                ! (unat (sample_source i) mod 88)) [0..<20])"
  proof -
    have n: "pw_length all_classes_20 = 20"
      by (simp add: all_classes_20_def)
    show ?thesis
      by (simp add: generatePassword_def getRandomValues_def Let_def charset_all_classes
          len n del: upt_Suc)
  qed
  have run: "map (\<lambda>i. (uppercase @ lowercase @ numbers @ symbols)
                        ! (unat (sample_source i) mod 88)) [0..<20]
             = js ''ABCDEFGHIJKLMNOPQRST''"
    by (simp add: upt_rec sample_source_def uppercase_def js_def)
  have cls: "test_upper (js ''ABCDEFGHIJKLMNOPQRST'')
     \<and> \<not> test_lower (js ''ABCDEFGHIJKLMNOPQRST'')
     \<and> \<not> test_digit (js ''ABCDEFGHIJKLMNOPQRST'')
     \<and> \<not> test_non_alnum (js ''ABCDEFGHIJKLMNOPQRST'')"
    by (simp add: test_upper_def test_lower_def test_digit_def test_non_alnum_def
        is_non_alnum_def is_upper_def is_lower_def is_digit_def js_def)
  show ?thesis
    using gen run cls by (simp add: js_def)
qed

subsection \<open>Session store\<close>

lemmas store_actions =
  setAuthenticated_def setUnlocked_def setVaultData_def addItem_def updateItem_def
  removeItem_def setPreferences_def setLoading_def setError_def lockVault_def logout_def

lemma reachable_key_present: "reachable st \<Longrightarrow> isUnlocked st \<Longrightarrow> key_present st"
  by (induction rule: reachable.induct)
     (simp_all add: key_present_def initial_state_def store_actions)

text \<open>
  Claim C10. In every state of the store reachable from the initial state by its eleven
  actions, \<open>isUnlocked\<close> implies that the encryption key and the salt are not null; and
  \<open>lockVault\<close> and \<open>logout\<close> both lead to a state with \<open>isUnlocked = false\<close>,
  \<open>encryptionKey = null\<close> and no decrypted item.
\<close>

theorem store_unlocked_has_key:
  assumes "reachable st"
  shows "(isUnlocked st \<longrightarrow> encryptionKey st \<noteq> None \<and> salt st \<noteq> None)
         \<and> locked_clean (lockVault st) \<and> locked_clean (logout st)"
proof -
  have "isUnlocked st \<longrightarrow> encryptionKey st \<noteq> None \<and> salt st \<noteq> None"
    using reachable_key_present [OF assms] by (simp add: key_present_def)
  moreover have "locked_clean (lockVault st)"
    by (simp add: locked_clean_def lockVault_def)
  moreover have "locked_clean (logout st)"
    by (simp add: locked_clean_def logout_def)
  ultimately show ?thesis by simp
qed

theorem store_unlocked_has_key_witness:
  "reachable (setUnlocked (CryptoKey [1, 2]) (js ''c2FsdA=='') initial_state)
   \<and> isUnlocked (setUnlocked (CryptoKey [1, 2]) (js ''c2FsdA=='') initial_state)
   \<and> encryptionKey (setUnlocked (CryptoKey [1, 2]) (js ''c2FsdA=='') initial_state)
       = Some (CryptoKey [1, 2])
   \<and> salt (setUnlocked (CryptoKey [1, 2]) (js ''c2FsdA=='') initial_state) \<noteq> None
   \<and> locked_clean (lockVault (setUnlocked (CryptoKey [1, 2]) (js ''c2FsdA=='') initial_state))
   \<and> locked_clean (logout (setUnlocked (CryptoKey [1, 2]) (js ''c2FsdA=='') initial_state))"
proof -
  have r: "reachable (setUnlocked (CryptoKey [1, 2]) (js ''c2FsdA=='') initial_state)"
    by (rule r_setUnlocked [OF r_init])
  show ?thesis
    using r store_unlocked_has_key [OF r] by (simp add: setUnlocked_def)
qed

subsection \<open>Reference platform, sealing and key derivation\<close>

lemma unframe_frame: "unframe (frame s @ r) = Some (s, r)"
  by (induction s) (simp_all, cases r, simp_all)

lemma unframe_opt_frame_opt: "unframe_opt (frame_opt v @ r) = Some (v, r)"
  by (cases v) (simp_all add: frame_opt_def unframe_frame)

lemma demo_json_roundtrip: "demo_json_parse (demo_json_stringify p) = Some p"
  by (simp add: demo_json_parse_def demo_json_stringify_def unframe_frame unframe_opt_frame_opt
      unframe_opt_frame_opt [of _ "[]", simplified])

lemma codeunit_halves: "push_bit 8 (ucast (ucast (drop_bit 8 u) :: byte)) OR ucast (ucast u :: byte) = (u :: codeunit)"
  by (rule bit_word_eqI) (auto simp: bit_simps)

lemma demo_text_roundtrip: "demo_text_decode (demo_text_encode s) = s"
  by (induction s) (simp_all add: codeunit_halves)

lemma length_pad_to: "length (pad_to n bs) = n"
  by (simp add: pad_to_def)

lemma pad_to_same: "length bs = n \<Longrightarrow> pad_to n bs = bs"
  by (simp add: pad_to_def)

lemma length_demo_tag: "length (demo_tag k nonce m) = 16"
  by (simp add: demo_tag_def length_pad_to)

lemma demo_tag_inject:
  assumes "demo_tag k nonce m = demo_tag k' nonce' m'"
  shows "pad_to 12 nonce = pad_to 12 nonce'" and "xor_sum (k @ m) = xor_sum (k' @ m')"
    and "pad_to 3 k = pad_to 3 k'"
  using assms by (simp_all add: demo_tag_def length_pad_to)

lemma demo_seals: "nonce \<noteq> [] \<Longrightarrow> demo_aes_gcm_encrypt k nonce m = Some (m @ demo_tag k nonce m)"
  by (simp add: demo_aes_gcm_encrypt_def)

lemma demo_sealed_shape:
  assumes "demo_aes_gcm_encrypt k nonce m = Some c"
  shows "nonce \<noteq> []" and "c = m @ demo_tag k nonce m"
  using assms by (simp_all add: demo_aes_gcm_encrypt_def split: if_splits)

lemma demo_opens:
  assumes "length t = 16"
  shows "demo_aes_gcm_decrypt k nonce (m @ t)
         = (if nonce \<noteq> [] \<and> t = demo_tag k nonce m then Some m else None)"
  using assms by (simp add: demo_aes_gcm_decrypt_def Let_def)


lemma demo_aead_nonce_bound:
  assumes "length nonce = 12" and "length nonce' = 12"
    and "demo_aes_gcm_encrypt k nonce m = Some c" and "demo_aes_gcm_encrypt k nonce' m' = Some c"
  shows "nonce = nonce'"
proof -
  from demo_sealed_shape(2) [OF assms(3)] demo_sealed_shape(2) [OF assms(4)]
  have "m @ demo_tag k nonce m = m' @ demo_tag k nonce' m'" by simp
  moreover have "length (demo_tag k nonce m) = length (demo_tag k nonce' m')"
    by (simp add: length_demo_tag)
  ultimately have "demo_tag k nonce m = demo_tag k nonce' m'"
    by (metis append_eq_append_conv)
  from demo_tag_inject(1) [OF this] show ?thesis by (simp add: pad_to_same assms(1,2))
qed








lemma demo_rejects_key:
  assumes "pad_to 3 k' \<noteq> pad_to 3 k"
  shows "demo_aes_gcm_decrypt k' nonce' (m @ demo_tag k nonce m) = None"
  using assms demo_tag_inject(3) [of k nonce m k' nonce' m]
  by (auto simp: demo_opens length_demo_tag)

lemma nonce_nonempty: "length nonce = 12 \<Longrightarrow> nonce \<noteq> []"
  by auto

lemma demo_aead_correct_ok: "aead_correct demo_platform"
  by (simp add: aead_correct_def demo_platform_def demo_seals nonce_nonempty demo_opens
      length_demo_tag)


lemma demo_aead_nonce_bound_ok: "aead_nonce_bound demo_platform"
  unfolding aead_nonce_bound_def
proof (intro allI impI)
  fix k nonce nonce' m m' c
  assume "length nonce = 12 \<and> length nonce' = 12
          \<and> aes_gcm_encrypt demo_platform k nonce m = Some c
          \<and> aes_gcm_encrypt demo_platform k nonce' m' = Some c"
  then have "length nonce = 12" and "length nonce' = 12"
    and "demo_aes_gcm_encrypt k nonce m = Some c" and "demo_aes_gcm_encrypt k nonce' m' = Some c"
    by (simp_all add: demo_platform_def)
  then show "nonce = nonce'" by (rule demo_aead_nonce_bound)
qed

lemma nonce_bound_distinct:
  assumes "aead_nonce_bound pf"
  shows "aead_nonce_distinct pf"
  using assms unfolding aead_nonce_bound_def aead_nonce_distinct_def by blast

lemma demo_aead_nonce_distinct_ok: "aead_nonce_distinct demo_platform"
  by (rule nonce_bound_distinct [OF demo_aead_nonce_bound_ok])




lemma demo_text_roundtrip_ok: "text_roundtrip demo_platform"
  by (simp add: text_roundtrip_def demo_platform_def demo_text_roundtrip)

lemma demo_json_roundtrip_ok: "json_roundtrip demo_platform"
  by (simp add: json_roundtrip_def demo_platform_def demo_json_roundtrip)

lemma demo_kdf_length_ok: "kdf_length demo_platform"
  by (auto simp: kdf_length_def demo_platform_def demo_pbkdf2_def min_def)

lemma bufferToBase64_text: "bufferToBase64 bs = Inr (base64_text bs)"
  by (simp add: base64_text_def bufferToBase64_returns)

lemma base64ToBuffer_text: "base64ToBuffer (base64_text bs) = Inr bs"
  by (simp add: base64_text_def base64ToBuffer_encoded)

lemma base64_text_inject:
  assumes "base64_text a = base64_text b"
  shows "a = b"
proof -
  have "base64ToBuffer (base64_text a) = base64ToBuffer (base64_text b)"
    by (simp only: assms)
  then have "(Inr a :: js_error + bytes) = Inr b"
    by (simp only: base64ToBuffer_text)
  then show ?thesis by simp
qed

lemma random_iv: "getRandomValues source 1 IV_LENGTH = Inr (map source [0..<12])"
  by (simp add: getRandomValues_def IV_LENGTH_def)

lemma encrypt_random: "encrypt pf source plaintext key None
    = sealed pf plaintext key (map source [0..<12])"
  unfolding encrypt_def random_iv
  by (simp add: bufferToBase64_text sealed_def Let_def split: option.splits)

lemma encrypt_empty_iv: "encrypt pf source plaintext key (Some [])
    = sealed pf plaintext key (map source [0..<12])"
  unfolding encrypt_def random_iv
  by (simp add: bufferToBase64_text sealed_def Let_def split: option.splits)

lemma encrypt_given_iv:
  "s \<noteq> [] \<Longrightarrow> encrypt pf source plaintext key (Some s)
    = (case base64ToBuffer s of Inl e \<Rightarrow> Inl e | Inr nonce \<Rightarrow> sealed pf plaintext key nonce)"
  by (simp add: encrypt_def bufferToBase64_text sealed_def Let_def split: sum.splits option.splits)

lemma sealed_seals:
  "aes_gcm_encrypt pf (key_bytes K) nonce (text_encode pf pt) = Some c
   \<Longrightarrow> sealed pf pt K nonce = Inr (base64_text c, base64_text nonce)"
  by (simp add: sealed_def)

lemma sealed_returns:
  assumes "sealed pf pt K nonce = Inr (ct, ivText)"
  shows "\<exists>c. aes_gcm_encrypt pf (key_bytes K) nonce (text_encode pf pt) = Some c
             \<and> ct = base64_text c \<and> ivText = base64_text nonce"
  using assms by (simp add: sealed_def split: option.splits)

lemma decrypt_text:
  "decrypt pf (base64_text c) (base64_text nonce) K
   = (case aes_gcm_decrypt pf (key_bytes K) nonce c of
        None \<Rightarrow> Inl OperationError
      | Some buf \<Rightarrow> Inr (text_decode pf buf))"
  by (simp add: decrypt_def base64ToBuffer_text)

lemma correct_seals:
  assumes "aead_correct pf" and "length nonce = 12"
  shows "\<exists>c. aes_gcm_encrypt pf k nonce m = Some c \<and> aes_gcm_decrypt pf k nonce c = Some m"
  using assms unfolding aead_correct_def by blast

text \<open>
  Claim C3. Round trip: for every payload \<open>P\<close> and key \<open>K\<close>, \<open>encryptVaultItem\<close> returns
  a pair (ciphertext, iv), and \<open>decryptVaultItem\<close> on that pair under the same key
  returns \<open>P\<close>, on a platform whose AES-GCM opens what it sealed and whose text and
  JSON codecs read back what they wrote.
\<close>

theorem vault_item_roundtrip:
  assumes "aead_correct pf" and "text_roundtrip pf" and "json_roundtrip pf"
  shows "\<exists>ct ivText. encryptVaultItem pf source P K = Inr (ct, ivText)
           \<and> decryptVaultItem pf ct ivText K = Inr P"
proof -
  let ?nonce = "map source [0..<12]"
  let ?text = "json_stringify pf P"
  have "length ?nonce = 12" by simp
  from correct_seals [OF assms(1) this]
  obtain c where s: "aes_gcm_encrypt pf (key_bytes K) ?nonce (text_encode pf ?text) = Some c"
    and o: "aes_gcm_decrypt pf (key_bytes K) ?nonce c = Some (text_encode pf ?text)"
    by blast
  have enc: "encryptVaultItem pf source P K = Inr (base64_text c, base64_text ?nonce)"
    by (simp add: encryptVaultItem_def encrypt_random sealed_seals [OF s])
  have "decrypt pf (base64_text c) (base64_text ?nonce) K
        = Inr (text_decode pf (text_encode pf ?text))"
    by (simp add: decrypt_text o)
  then have "decrypt pf (base64_text c) (base64_text ?nonce) K = Inr ?text"
    using assms(2) by (simp add: text_roundtrip_def)
  then have "decryptVaultItem pf (base64_text c) (base64_text ?nonce) K = Inr P"
    using assms(3) by (simp add: decryptVaultItem_def json_roundtrip_def)
  with enc show ?thesis by blast
qed

theorem vault_item_roundtrip_witness:
  "aead_correct demo_platform \<and> text_roundtrip demo_platform \<and> json_roundtrip demo_platform
   \<and> (\<exists>ct ivText.
         encryptVaultItem demo_platform sample_bytes sample_payload (CryptoKey [1, 2, 3])
           = Inr (ct, ivText)
         \<and> decryptVaultItem demo_platform ct ivText (CryptoKey [1, 2, 3]) = Inr sample_payload)"
  using vault_item_roundtrip [OF demo_aead_correct_ok demo_text_roundtrip_ok demo_json_roundtrip_ok]
    demo_aead_correct_ok demo_text_roundtrip_ok demo_json_roundtrip_ok
  by blast

lemma deriveKeys_eval:
  "deriveKeys pf passwd saltBase64 =
     (case base64ToBuffer saltBase64 of
        Inl e \<Rightarrow> Inl e
      | Inr slt \<Rightarrow>
          Inr (CryptoKey (slice_bytes 0 32 (key_material pf passwd slt)),
               base64_text (sha256 pf (slice_bytes 32 64 (key_material pf passwd slt)))))"
  by (simp add: deriveKeys_def Let_def bufferToBase64_text key_material_def PBKDF2_ITERATIONS_def
      split: sum.splits)

lemma split_64:
  assumes "length km = 64"
  shows "km = slice_bytes 0 32 km @ slice_bytes 32 64 km \<and> length (slice_bytes 0 32 km) = 32
         \<and> length (slice_bytes 32 64 km) = 32"
proof -
  have "take 32 km @ take 32 (drop 32 km) = take 64 km"
    using take_add [of 32 32 km] by simp
  then show ?thesis using assms by (simp add: slice_bytes_def)
qed

text \<open>
  Claim C4. \<open>deriveKeys\<close> is a function of the password and the salt alone (it reads
  no entropy and no state, so two calls with the same inputs return the same pair).
  For a salt that decodes, the 64 bytes of PBKDF2-SHA-256 with 600000 iterations split
  into two halves of 32 bytes: the encryption key is imported from the first half, and
  the verifier is the base64 text of one SHA-256 hash of the second half.
\<close>

theorem deriveKeys_split:
  assumes "kdf_length pf" and "base64ToBuffer saltBase64 = Inr slt"
  shows "\<exists>ek vk verifier.
           key_material pf passwd slt = ek @ vk \<and> length ek = 32 \<and> length vk = 32
           \<and> base64ToBuffer verifier = Inr (sha256 pf vk)
           \<and> deriveKeys pf passwd saltBase64 = Inr (CryptoKey ek, verifier)"
proof -
  let ?km = "key_material pf passwd slt"
  have "length ?km = 64"
    using assms(1) by (simp add: kdf_length_def key_material_def)
  from split_64 [OF this]
  have km: "?km = slice_bytes 0 32 ?km @ slice_bytes 32 64 ?km" and l1: "length (slice_bytes 0 32 ?km) = 32"
    and l2: "length (slice_bytes 32 64 ?km) = 32"
    by simp_all
  have d: "deriveKeys pf passwd saltBase64
           = Inr (CryptoKey (slice_bytes 0 32 ?km), base64_text (sha256 pf (slice_bytes 32 64 ?km)))"
    by (simp add: deriveKeys_eval assms(2))
  show ?thesis
    using km l1 l2 d base64ToBuffer_text [of "sha256 pf (slice_bytes 32 64 ?km)"] by blast
qed

lemma salt16: "base64ToBuffer (js ''c2FsdHNhbHRzYWx0c2FsdA=='')
   = Inr [115, 97, 108, 116, 115, 97, 108, 116, 115, 97, 108, 116, 115, 97, 108, 116]"
  by (simp add: base64ToBuffer_def atob_def js_def is_ascii_whitespace_def strip_padding_def
      b64_index_def)

theorem deriveKeys_split_witness:
  "kdf_length demo_platform
   \<and> base64ToBuffer (js ''c2FsdHNhbHRzYWx0c2FsdA=='')
       = Inr [115, 97, 108, 116, 115, 97, 108, 116, 115, 97, 108, 116, 115, 97, 108, 116]
   \<and> (\<exists>ek vk verifier.
         key_material demo_platform (js ''VeryStrongPass123!!'')
           [115, 97, 108, 116, 115, 97, 108, 116, 115, 97, 108, 116, 115, 97, 108, 116] = ek @ vk
         \<and> length ek = 32 \<and> length vk = 32
         \<and> base64ToBuffer verifier = Inr (sha256 demo_platform vk)
         \<and> deriveKeys demo_platform (js ''VeryStrongPass123!!'') (js ''c2FsdHNhbHRzYWx0c2FsdA=='')
             = Inr (CryptoKey ek, verifier))"
  using deriveKeys_split [OF demo_kdf_length_ok salt16] demo_kdf_length_ok salt16
  by blast

lemma atob_error: "atob s = Inl e \<Longrightarrow> e = InvalidCharacterError"
  by (auto simp: atob_def Let_def split: if_splits)

lemma base64ToBuffer_error: "base64ToBuffer s = Inl e \<Longrightarrow> e = InvalidCharacterError"
  by (auto simp: base64ToBuffer_def dest: atob_error split: sum.splits)

text \<open>
  Claim C6, as the code has it. \<open>deriveKeys\<close> fails exactly when the salt text is not
  valid base64, with the \<open>InvalidCharacterError\<close> of \<open>atob\<close>; a salt that decodes, of
  whatever length, yields the encryption key and the verifier together.
\<close>

theorem deriveKeys_fails_on_text_only:
  "(deriveKeys pf passwd saltBase64 = Inl e
      \<longleftrightarrow> e = InvalidCharacterError \<and> base64ToBuffer saltBase64 = Inl e)
   \<and> (base64ToBuffer saltBase64 = Inr slt
      \<longrightarrow> (\<exists>k v. deriveKeys pf passwd saltBase64 = Inr (k, v)))"
  using base64ToBuffer_error [of saltBase64 e]
  by (auto simp: deriveKeys_eval split: sum.splits)

lemma salt3: "base64ToBuffer (js ''AAAA'') = Inr [0, 0, 0]"
  by (simp add: base64ToBuffer_def atob_def js_def is_ascii_whitespace_def strip_padding_def
      b64_index_def)

theorem deriveKeys_fails_on_text_only_witness:
  "base64ToBuffer (js ''AAAA'') = Inr [0, 0, 0]
   \<and> (\<exists>k v. deriveKeys demo_platform (js ''pw'') (js ''AAAA'') = Inr (k, v))
   \<and> deriveKeys demo_platform (js ''pw'') (js ''AAAA'') \<noteq> Inl InvalidCharacterError"
  using deriveKeys_fails_on_text_only [of demo_platform "js ''pw''" "js ''AAAA''"
      InvalidCharacterError "[0, 0, 0]"] salt3
  by auto

lemma replicate_unfold: "replicate (numeral n) x = x # replicate (pred_numeral n) x"
  by (simp add: numeral_eq_Suc)

text \<open>
  Claim C6 as stated fails: the salt text \<open>AAA=\<close> decodes to two bytes, not sixteen,
  and \<open>deriveKeys\<close> returns both keys.
\<close>

theorem deriveKeys_short_salt:
  "base64ToBuffer (js ''AAA='') = Inr [0, 0]
   \<and> deriveKeys demo_platform (js ''pw'') (js ''AAA='')
       = Inr (CryptoKey ([0, 112, 0, 119] @ replicate 28 0),
              js ''AAAAAAAAAAAAAAAAAAAAAAAAAAAAAAAAAAAAAAAAAAA='')"
proof -
  have s: "base64ToBuffer (js ''AAA='') = Inr [0, 0]"
    by (simp add: base64ToBuffer_def atob_def js_def is_ascii_whitespace_def strip_padding_def
        b64_index_def)
  have km: "key_material demo_platform (js ''pw'') [0, 0] = [0, 112, 0, 119] @ replicate 60 0"
    by (simp add: key_material_def demo_platform_def demo_pbkdf2_def js_def replicate_unfold)
  have ek: "slice_bytes 0 32 ([0, 112, 0, 119] @ replicate 60 (0::byte)) = [0, 112, 0, 119] @ replicate 28 0"
    by (simp add: slice_bytes_def replicate_unfold)
  have vk: "slice_bytes 32 64 ([0, 112, 0, 119] @ replicate 60 (0::byte)) = replicate 32 0"
    by (simp add: slice_bytes_def replicate_unfold)
  have h: "sha256 demo_platform (replicate 32 0) = replicate 32 0"
    by (simp add: demo_platform_def demo_sha256_def replicate_unfold)
  have v: "base64_text (replicate 32 0) = js ''AAAAAAAAAAAAAAAAAAAAAAAAAAAAAAAAAAAAAAAAAAA=''"
    by (simp add: base64_text_def replicate_unfold b64_char_def js_def)
  show ?thesis
    unfolding deriveKeys_eval s by (simp only: sum.case km ek vk h v simp_thms)
qed

subsection \<open>Nonces and tampering\<close>


text \<open>
  Claim C7, as the code has it. When \<open>encrypt\<close> is called without \<open>ivBase64\<close> (or with
  the empty string), as \<open>encryptVaultItem\<close> always calls it, the nonce is exactly the
  twelve bytes drawn from the entropy source, and two seals of the same plaintext under
  the same key whose draws differ have different nonces and different ciphertexts. When
  a non-empty \<open>ivBase64\<close> is given, no entropy is drawn: its decoded bytes are the nonce
  handed to AES-GCM, the outcome is the sealed pair with that nonce (always so when it
  has twelve bytes) or the \<open>OperationError\<close> of AES-GCM refusing it, and a text that is
  not base64 fails to decode.
\<close>

theorem encrypt_nonce_from_entropy:
  assumes "aead_correct pf" and "aead_nonce_distinct pf"
  shows "\<exists>ct ivText.
           encrypt pf source pt K None = Inr (ct, ivText)
           \<and> encrypt pf source pt K (Some []) = Inr (ct, ivText)
           \<and> base64ToBuffer ivText = Inr (map source [0..<12])
           \<and> length (map source [0..<12]) = 12
           \<and> (\<forall>source' ct' ivText'.
                 encrypt pf source' pt K None = Inr (ct', ivText')
                 \<and> map source' [0..<12] \<noteq> map source [0..<12]
                 \<longrightarrow> ivText' \<noteq> ivText \<and> ct' \<noteq> ct)
           \<and> (\<forall>P. encryptVaultItem pf source P K = encrypt pf source (json_stringify pf P) K None)
           \<and> (\<forall>s nonce. s \<noteq> [] \<and> base64ToBuffer s = Inr nonce
                 \<longrightarrow> encrypt pf source pt K (Some s)
                     = (case aes_gcm_encrypt pf (key_bytes K) nonce (text_encode pf pt) of
                          None \<Rightarrow> Inl OperationError
                        | Some c \<Rightarrow> Inr (base64_text c, base64_text nonce)))
           \<and> (\<forall>s nonce. s \<noteq> [] \<and> base64ToBuffer s = Inr nonce \<and> length nonce = 12
                 \<longrightarrow> (\<exists>ct' ivText'. encrypt pf source pt K (Some s) = Inr (ct', ivText')
                        \<and> base64ToBuffer ivText' = Inr nonce))
           \<and> (\<forall>s e. s \<noteq> [] \<and> base64ToBuffer s = Inl e
                 \<longrightarrow> encrypt pf source pt K (Some s) = Inl e)"
proof -
  let ?nonce = "map source [0..<12]"
  let ?m = "text_encode pf pt"
  have l: "length ?nonce = 12" by simp
  from correct_seals [OF assms(1) l]
  obtain c where c: "aes_gcm_encrypt pf (key_bytes K) ?nonce ?m = Some c" by blast
  define ct where "ct = base64_text c"
  define ivText where "ivText = base64_text ?nonce"
  have s: "sealed pf pt K ?nonce = Inr (ct, ivText)"
    by (simp add: sealed_seals [OF c] ct_def ivText_def)
  have e1: "encrypt pf source pt K None = Inr (ct, ivText)"
    by (simp add: encrypt_random s)
  have e2: "encrypt pf source pt K (Some []) = Inr (ct, ivText)"
    by (simp add: encrypt_empty_iv s)
  have d: "base64ToBuffer ivText = Inr ?nonce"
    by (simp add: ivText_def base64ToBuffer_text)
  have fresh: "ivText' \<noteq> ivText \<and> ct' \<noteq> ct"
    if a: "encrypt pf source' pt K None = Inr (ct', ivText')"
      and b: "map source' [0..<12] \<noteq> ?nonce" for source' ct' ivText'
  proof -
    let ?n' = "map source' [0..<12]"
    have l': "length ?n' = 12" by simp
    from a have "sealed pf pt K ?n' = Inr (ct', ivText')" by (simp add: encrypt_random)
    from sealed_returns [OF this]
    obtain c' where c': "aes_gcm_encrypt pf (key_bytes K) ?n' ?m = Some c'"
      and ct': "ct' = base64_text c'" and iv': "ivText' = base64_text ?n'"
      by blast
    have "ivText' \<noteq> ivText"
    proof
      assume "ivText' = ivText"
      then have "base64_text ?n' = base64_text ?nonce" by (simp add: iv' ivText_def)
      from base64_text_inject [OF this] b show False by simp
    qed
    moreover have "ct' \<noteq> ct"
    proof
      assume "ct' = ct"
      then have "base64_text c' = base64_text c" by (simp add: ct' ct_def)
      then have "c' = c" by (rule base64_text_inject)
      moreover have "c' \<noteq> c"
        using assms(2) l' l b c' c unfolding aead_nonce_distinct_def by blast
      ultimately show False by simp
    qed
    ultimately show ?thesis by simp
  qed
  have given: "encrypt pf source pt K (Some s)
               = (case aes_gcm_encrypt pf (key_bytes K) nonce ?m of
                    None \<Rightarrow> Inl OperationError
                  | Some c \<Rightarrow> Inr (base64_text c, base64_text nonce))"
    if "s \<noteq> []" and "base64ToBuffer s = Inr nonce" for s nonce
    using that by (simp add: encrypt_given_iv sealed_def)
  have given12: "\<exists>ct' ivText'. encrypt pf source pt K (Some s) = Inr (ct', ivText')
                  \<and> base64ToBuffer ivText' = Inr nonce"
    if n: "s \<noteq> []" "base64ToBuffer s = Inr nonce" and ln: "length nonce = 12" for s nonce
  proof -
    from correct_seals [OF assms(1) ln]
    obtain c' where "aes_gcm_encrypt pf (key_bytes K) nonce ?m = Some c'" by blast
    then have "encrypt pf source pt K (Some s) = Inr (base64_text c', base64_text nonce)"
      by (simp add: given [OF n])
    then show ?thesis by (simp add: base64ToBuffer_text)
  qed
  have bad: "encrypt pf source pt K (Some s) = Inl e"
    if "s \<noteq> []" and "base64ToBuffer s = Inl e" for s e
    using that by (simp add: encrypt_given_iv)
  have vi: "encryptVaultItem pf source P K = encrypt pf source (json_stringify pf P) K None" for P
    by (simp add: encryptVaultItem_def)
  have "encrypt pf source pt K None = Inr (ct, ivText)
        \<and> encrypt pf source pt K (Some []) = Inr (ct, ivText)
        \<and> base64ToBuffer ivText = Inr (map source [0..<12])
        \<and> length (map source [0..<12]) = 12
        \<and> (\<forall>source' ct' ivText'.
              encrypt pf source' pt K None = Inr (ct', ivText')
              \<and> map source' [0..<12] \<noteq> map source [0..<12]
              \<longrightarrow> ivText' \<noteq> ivText \<and> ct' \<noteq> ct)
        \<and> (\<forall>P. encryptVaultItem pf source P K = encrypt pf source (json_stringify pf P) K None)
        \<and> (\<forall>s nonce. s \<noteq> [] \<and> base64ToBuffer s = Inr nonce
              \<longrightarrow> encrypt pf source pt K (Some s)
                  = (case aes_gcm_encrypt pf (key_bytes K) nonce (text_encode pf pt) of
                       None \<Rightarrow> Inl OperationError
                     | Some c \<Rightarrow> Inr (base64_text c, base64_text nonce)))
        \<and> (\<forall>s nonce. s \<noteq> [] \<and> base64ToBuffer s = Inr nonce \<and> length nonce = 12
              \<longrightarrow> (\<exists>ct' ivText'. encrypt pf source pt K (Some s) = Inr (ct', ivText')
                     \<and> base64ToBuffer ivText' = Inr nonce))
        \<and> (\<forall>s e. s \<noteq> [] \<and> base64ToBuffer s = Inl e
              \<longrightarrow> encrypt pf source pt K (Some s) = Inl e)"
  proof (intro conjI allI impI)
    show "encrypt pf source pt K None = Inr (ct, ivText)" by (rule e1)
    show "encrypt pf source pt K (Some []) = Inr (ct, ivText)" by (rule e2)
    show "base64ToBuffer ivText = Inr (map source [0..<12])" by (rule d)
    show "length (map source [0..<12]) = 12" by simp
  next
    fix source' ct' ivText'
    assume "encrypt pf source' pt K None = Inr (ct', ivText')
            \<and> map source' [0..<12] \<noteq> map source [0..<12]"
    then show "ivText' \<noteq> ivText" "ct' \<noteq> ct" using fresh by blast+
  next
    fix P show "encryptVaultItem pf source P K = encrypt pf source (json_stringify pf P) K None"
      by (rule vi)
  next
    fix s nonce assume "s \<noteq> [] \<and> base64ToBuffer s = Inr nonce"
    then have "s \<noteq> []" and "base64ToBuffer s = Inr nonce" by simp_all
    then show "encrypt pf source pt K (Some s)
               = (case aes_gcm_encrypt pf (key_bytes K) nonce (text_encode pf pt) of
                    None \<Rightarrow> Inl OperationError
                  | Some c \<Rightarrow> Inr (base64_text c, base64_text nonce))"
      by (rule given)
  next
    fix s nonce assume "s \<noteq> [] \<and> base64ToBuffer s = Inr nonce \<and> length nonce = 12"
    then have "s \<noteq> []" and "base64ToBuffer s = Inr nonce" and "length nonce = 12"
      by simp_all
    then show "\<exists>ct' ivText'. encrypt pf source pt K (Some s) = Inr (ct', ivText')
                  \<and> base64ToBuffer ivText' = Inr nonce"
      by (rule given12)
  next
    fix s e assume "s \<noteq> [] \<and> base64ToBuffer s = Inl e"
    then have "s \<noteq> []" and "base64ToBuffer s = Inl e" by simp_all
    then show "encrypt pf source pt K (Some s) = Inl e" by (rule bad)
  qed
  then show ?thesis by - (rule exI, rule exI, assumption)
qed

lemma encrypt_nonce_witness_iv: "base64ToBuffer (js ''AAAAAAAAAAAAAAAA'') = Inr (replicate 12 0)"
  by (simp add: base64ToBuffer_def atob_def js_def is_ascii_whitespace_def strip_padding_def
      b64_index_def replicate_unfold)

theorem encrypt_nonce_from_entropy_witness:
  "aead_correct demo_platform \<and> aead_nonce_distinct demo_platform
   \<and> (\<exists>ct ivText.
         encrypt demo_platform sample_bytes (js ''secret'') (CryptoKey [1, 2, 3]) None
           = Inr (ct, ivText)
         \<and> base64ToBuffer ivText = Inr (map sample_bytes [0..<12]))
   \<and> js ''AAAAAAAAAAAAAAAA'' \<noteq> []
   \<and> base64ToBuffer (js ''AAAAAAAAAAAAAAAA'') = Inr (replicate 12 0)
   \<and> length (replicate 12 (0 :: byte)) = 12
   \<and> (\<exists>ct ivText.
         encrypt demo_platform sample_bytes (js ''secret'') (CryptoKey [1, 2, 3])
             (Some (js ''AAAAAAAAAAAAAAAA'')) = Inr (ct, ivText)
         \<and> base64ToBuffer ivText = Inr (replicate 12 0))"
proof -
  have ne: "js ''AAAAAAAAAAAAAAAA'' \<noteq> []" by (simp add: js_def)
  have l: "length (replicate 12 (0 :: byte)) = 12" by simp
  from encrypt_nonce_from_entropy [OF demo_aead_correct_ok demo_aead_nonce_distinct_ok,
      of sample_bytes "js ''secret''" "CryptoKey [1, 2, 3]"]
  obtain ct ivText where
    e: "encrypt demo_platform sample_bytes (js ''secret'') (CryptoKey [1, 2, 3]) None
        = Inr (ct, ivText)"
    and d: "base64ToBuffer ivText = Inr (map sample_bytes [0..<12])"
    and g: "\<forall>s nonce. s \<noteq> [] \<and> base64ToBuffer s = Inr nonce \<and> length nonce = 12
              \<longrightarrow> (\<exists>ct' ivText'.
                     encrypt demo_platform sample_bytes (js ''secret'') (CryptoKey [1, 2, 3]) (Some s)
                       = Inr (ct', ivText')
                     \<and> base64ToBuffer ivText' = Inr nonce)"
    by (elim exE conjE) (rule that, assumption+)
  from e d have a: "\<exists>ct ivText.
         encrypt demo_platform sample_bytes (js ''secret'') (CryptoKey [1, 2, 3]) None
           = Inr (ct, ivText)
         \<and> base64ToBuffer ivText = Inr (map sample_bytes [0..<12])"
    by blast
  from g ne encrypt_nonce_witness_iv l have b: "\<exists>ct ivText.
         encrypt demo_platform sample_bytes (js ''secret'') (CryptoKey [1, 2, 3])
             (Some (js ''AAAAAAAAAAAAAAAA'')) = Inr (ct, ivText)
         \<and> base64ToBuffer ivText = Inr (replicate 12 0)"
    by blast
  from demo_aead_correct_ok demo_aead_nonce_distinct_ok a ne encrypt_nonce_witness_iv l b
  show ?thesis by (intro conjI)
qed

text \<open>
  Claim C7 as stated fails: \<open>encrypt\<close> accepts a nonce from its caller. Called twice
  with \<open>ivBase64 = "AAAAAAAAAAAAAAAA"\<close> (twelve zero bytes) on different entropy, it
  returns the same nonce and the same ciphertext.
\<close>

theorem encrypt_accepts_caller_nonce:
  "encrypt demo_platform sample_bytes (js ''secret'') (CryptoKey [1, 2, 3])
       (Some (js ''AAAAAAAAAAAAAAAA''))
     = Inr (js ''AHMAZQBjAHIAZQB0AAAAAAAAAAAAAAAAFgECAw=='', js ''AAAAAAAAAAAAAAAA'')
   \<and> encrypt demo_platform other_bytes (js ''secret'') (CryptoKey [1, 2, 3])
       (Some (js ''AAAAAAAAAAAAAAAA''))
     = Inr (js ''AHMAZQBjAHIAZQB0AAAAAAAAAAAAAAAAFgECAw=='', js ''AAAAAAAAAAAAAAAA'')
   \<and> sample_bytes 0 \<noteq> other_bytes 0"
proof -
  have ne: "js ''AAAAAAAAAAAAAAAA'' \<noteq> []" by (simp add: js_def)
  have buf: "aes_gcm_encrypt demo_platform (key_bytes (CryptoKey [1, 2, 3])) (replicate 12 0)
               (text_encode demo_platform (js ''secret''))
             = Some [0, 115, 0, 101, 0, 99, 0, 114, 0, 101, 0, 116,
                     0, 0, 0, 0, 0, 0, 0, 0, 0, 0, 0, 0, 22, 1, 2, 3]"
    by (simp add: demo_platform_def demo_aes_gcm_encrypt_def demo_tag_def pad_to_def js_def
        replicate_unfold)
  have ct: "base64_text [0, 115, 0, 101, 0, 99, 0, 114, 0, 101, 0, 116,
                         0, 0, 0, 0, 0, 0, 0, 0, 0, 0, 0, 0, 22, 1, 2, 3]
            = js ''AHMAZQBjAHIAZQB0AAAAAAAAAAAAAAAAFgECAw==''"
    by (simp add: base64_text_def b64_char_def js_def)
  have iv0: "base64_text (replicate 12 0) = js ''AAAAAAAAAAAAAAAA''"
    by (simp add: base64_text_def b64_char_def js_def replicate_unfold)
  have s: "sealed demo_platform (js ''secret'') (CryptoKey [1, 2, 3]) (replicate 12 0)
           = Inr (js ''AHMAZQBjAHIAZQB0AAAAAAAAAAAAAAAAFgECAw=='', js ''AAAAAAAAAAAAAAAA'')"
    unfolding sealed_def buf by (simp only: option.case ct iv0)
  have e: "encrypt demo_platform source (js ''secret'') (CryptoKey [1, 2, 3])
             (Some (js ''AAAAAAAAAAAAAAAA''))
           = Inr (js ''AHMAZQBjAHIAZQB0AAAAAAAAAAAAAAAAFgECAw=='', js ''AAAAAAAAAAAAAAAA'')"
    for source
    unfolding encrypt_given_iv [OF ne] encrypt_nonce_witness_iv
    by (simp only: sum.case s)
  have d: "sample_bytes 0 \<noteq> other_bytes 0"
    by (simp add: sample_bytes_def other_bytes_def)
  from e [of sample_bytes] e [of other_bytes] d show ?thesis by (simp only: simp_thms)
qed

text \<open>
  A nonce the platform refuses: \<open>ivBase64 = " "\<close> is truthy and decodes to no bytes,
  and \<open>encrypt\<close> ends in the \<open>OperationError\<close> of the refused empty nonce.
\<close>

lemma space_iv_decodes: "base64ToBuffer (js '' '') = Inr []"
  by (simp add: base64ToBuffer_def atob_def js_def is_ascii_whitespace_def strip_padding_def)

lemma encrypt_refuses_empty_nonce:
  "encrypt demo_platform source pt K (Some (js '' '')) = Inl OperationError"
proof -
  have ne: "js '' '' \<noteq> []" by (simp add: js_def)
  show ?thesis
    unfolding encrypt_given_iv [OF ne] space_iv_decodes
    by (simp add: sealed_def demo_platform_def demo_aes_gcm_encrypt_def)
qed

lemma decrypt_eval:
  "decrypt pf ct iv0 K =
     (case base64ToBuffer ct of
        Inl e \<Rightarrow> Inl e
      | Inr cb \<Rightarrow>
         (case base64ToBuffer iv0 of
            Inl e \<Rightarrow> Inl e
          | Inr nb \<Rightarrow>
             (case aes_gcm_decrypt pf (key_bytes K) nb cb of
                None \<Rightarrow> Inl OperationError
              | Some buf \<Rightarrow> Inr (text_decode pf buf))))"
  by (simp add: decrypt_def)

lemma decrypt_fails_vault_item: "decrypt pf ct iv0 K = Inl e \<Longrightarrow> decryptVaultItem pf ct iv0 K = Inl e"
  by (simp add: decryptVaultItem_def)










lemma sample_nonce: "map sample_bytes [0..<12] = [11, 48, 85, 122, 159, 196, 233, 14, 51, 88, 125, 162]"
  by (simp add: sample_bytes_def upt_rec)

lemma sample_sealed_bytes:
  "aes_gcm_encrypt demo_platform (key_bytes (CryptoKey [1, 2, 3])) [11, 48, 85, 122, 159, 196, 233, 14, 51, 88, 125, 162]
     (text_encode demo_platform (js ''{}''))
   = Some [0, 123, 0, 125, 11, 48, 85, 122, 159, 196, 233, 14, 51, 88, 125, 162, 6, 1, 2, 3]"
  by (simp add: demo_platform_def demo_aes_gcm_encrypt_def demo_tag_def pad_to_def js_def)

lemma sample_sealed_text: "base64_text [0, 123, 0, 125, 11, 48, 85, 122, 159, 196, 233, 14, 51, 88, 125, 162, 6, 1, 2, 3] = js ''AHsAfQswVXqfxOkOM1h9ogYBAgM=''"
  by (simp add: base64_text_def b64_char_def js_def)

lemma sample_nonce_text: "base64_text [11, 48, 85, 122, 159, 196, 233, 14, 51, 88, 125, 162] = js ''CzBVep/E6Q4zWH2i''"
  by (simp add: base64_text_def b64_char_def js_def)

lemma sample_encrypt:
  "encrypt demo_platform sample_bytes (js ''{}'') (CryptoKey [1, 2, 3]) None
   = Inr (js ''AHsAfQswVXqfxOkOM1h9ogYBAgM='', js ''CzBVep/E6Q4zWH2i'')"
  unfolding encrypt_random sealed_def sample_nonce sample_sealed_bytes
  by (simp only: option.case sample_sealed_text sample_nonce_text)


lemma slack_text_decodes: "base64ToBuffer (js ''AHsAfQswVXqfxOkOM1h9ogYBAgO='') = Inr [0, 123, 0, 125, 11, 48, 85, 122, 159, 196, 233, 14, 51, 88, 125, 162, 6, 1, 2, 3]"
  by (simp add: base64ToBuffer_def atob_def js_def is_ascii_whitespace_def strip_padding_def
      b64_index_def)


lemma sample_iv_decodes: "base64ToBuffer (js ''CzBVep/E6Q4zWH2i'') = Inr [11, 48, 85, 122, 159, 196, 233, 14, 51, 88, 125, 162]"
  unfolding sample_nonce_text [symmetric] by (rule base64ToBuffer_text)

text \<open>
  The law is one of the decoded bytes, not of the stored text: in the text of this
  sealed pair, flipping bit 1 of the last character before the padding (\<open>M\<close> becomes
  \<open>O\<close>) changes only bits that \<open>atob\<close> discards, and \<open>decrypt\<close> returns the plaintext.
\<close>

lemma open_accepts_flipped_text:
  "encrypt demo_platform sample_bytes (js ''{}'') (CryptoKey [1, 2, 3]) None
     = Inr (js ''AHsAfQswVXqfxOkOM1h9ogYBAgM='', js ''CzBVep/E6Q4zWH2i'')
   \<and> (js ''AHsAfQswVXqfxOkOM1h9ogYBAgM='')[26 := (js ''AHsAfQswVXqfxOkOM1h9ogYBAgM='') ! 26 XOR 2] = js ''AHsAfQswVXqfxOkOM1h9ogYBAgO=''
   \<and> decrypt demo_platform (js ''AHsAfQswVXqfxOkOM1h9ogYBAgO='') (js ''CzBVep/E6Q4zWH2i'') (CryptoKey [1, 2, 3]) = Inr (js ''{}'')"
proof -
  have f: "(js ''AHsAfQswVXqfxOkOM1h9ogYBAgM='')[26 := (js ''AHsAfQswVXqfxOkOM1h9ogYBAgM='') ! 26 XOR 2] = js ''AHsAfQswVXqfxOkOM1h9ogYBAgO=''"
    by (simp add: js_def)
  have "\<exists>c. aes_gcm_encrypt demo_platform (key_bytes (CryptoKey [1, 2, 3])) [11, 48, 85, 122, 159, 196, 233, 14, 51, 88, 125, 162] (text_encode demo_platform (js ''{}'')) = Some c
           \<and> aes_gcm_decrypt demo_platform (key_bytes (CryptoKey [1, 2, 3])) [11, 48, 85, 122, 159, 196, 233, 14, 51, 88, 125, 162] c = Some (text_encode demo_platform (js ''{}''))"
    by (rule correct_seals [OF demo_aead_correct_ok]) simp
  then have o: "aes_gcm_decrypt demo_platform (key_bytes (CryptoKey [1, 2, 3])) [11, 48, 85, 122, 159, 196, 233, 14, 51, 88, 125, 162] [0, 123, 0, 125, 11, 48, 85, 122, 159, 196, 233, 14, 51, 88, 125, 162, 6, 1, 2, 3]
           = Some (text_encode demo_platform (js ''{}''))"
    unfolding sample_sealed_bytes by simp
  have t: "text_decode demo_platform (text_encode demo_platform (js ''{}'')) = js ''{}''"
    by (simp add: demo_platform_def demo_text_roundtrip)
  have d: "decrypt demo_platform (js ''AHsAfQswVXqfxOkOM1h9ogYBAgO='') (js ''CzBVep/E6Q4zWH2i'') (CryptoKey [1, 2, 3]) = Inr (js ''{}'')"
    unfolding decrypt_eval slack_text_decodes sample_iv_decodes
    by (simp only: sum.case option.case o t)
  from sample_encrypt f d show ?thesis by (simp only: simp_thms)
qed


subsection \<open>Unlocking\<close>

lemma unlock_try_loading: "unlock_try pf now (w\<lparr>loading := l, page_error := e\<rparr>) = unlock_try pf now w"
  by (simp add: unlock_try_def cong: option.case_cong sum.case_cong if_cong)

lemma handleUnlock_db: "db (handleUnlock pf now w) = db w"
  by (simp add: handleUnlock_def Let_def split: sum.splits)

lemma handleUnlock_failure:
  "unlock_try pf now w = Inl e \<Longrightarrow>
     handleUnlock pf now w = w\<lparr>loading := False, page_error := Some e\<rparr>"
  by (simp add: handleUnlock_def Let_def unlock_try_loading)

lemma handleUnlock_success:
  "unlock_try pf now w = Inr st \<Longrightarrow>
     handleUnlock pf now w = w\<lparr>store := st, showPassword := [], loading := False, page_error := None\<rparr>"
  by (simp add: handleUnlock_def Let_def unlock_try_loading)

lemma deriveEncryptionKey_eval:
  "deriveEncryptionKey pf passwd saltBase64 =
     (case base64ToBuffer saltBase64 of
        Inl e \<Rightarrow> Inl e
      | Inr slt \<Rightarrow> Inr (CryptoKey (slice_bytes 0 32 (key_material pf passwd slt))))"
  by (simp add: deriveEncryptionKey_def deriveKeys_eval split: sum.splits)

lemma unlock_try_success:
  assumes "userId (store w) = Some uid" and "uid \<noteq> []"
    and "getProfile (db w) uid = Inr profile" and "not_locked profile now"
    and "base64ToBuffer (kdf_salt profile) = Inr slt"
    and "getVaultItems (db w) uid = Inr rows"
  shows "unlock_try pf now w =
           Inr (setVaultData
                  (decrypt_items pf (CryptoKey (slice_bytes 0 32 (key_material pf (showPassword w) slt))) rows)
                  []
                  (setUnlocked (CryptoKey (slice_bytes 0 32 (key_material pf (showPassword w) slt)))
                     (kdf_salt profile) (store w)))"
  using assms
  by (auto simp: unlock_try_def not_locked_def deriveEncryptionKey_eval split: option.splits)

lemma unlock_try_locked:
  assumes "userId (store w) = Some uid" and "uid \<noteq> []"
    and "getProfile (db w) uid = Inr profile"
    and "failed_unlock_locked_until profile = Some t" and "now < t"
  shows "unlock_try pf now w = Inl (AccountLocked (lockout_minutes t now))"
  using assms by (simp add: unlock_try_def)

lemma unlock_try_ready: "returns (unlock_try pf now w) = unlock_ready w now"
  by (auto simp: unlock_try_def unlock_ready_def returns_def not_locked_def
      deriveEncryptionKey_eval split: option.splits sum.splits)

lemma unlock_try_store:
  assumes "unlock_try pf now w = Inr st"
  shows "\<exists>uid profile key.
           userId (store w) = Some uid \<and> getProfile (db w) uid = Inr profile
           \<and> deriveEncryptionKey pf (showPassword w) (kdf_salt profile) = Inr key
           \<and> isUnlocked st \<and> encryptionKey st = Some key \<and> salt st = Some (kdf_salt profile)"
  using assms
  by (auto simp: unlock_try_def setVaultData_def setUnlocked_def
      split: option.splits sum.splits if_splits)

text \<open>
  Claim C1, as the code has it. \<open>handleUnlock\<close> reports failure, and then leaves the
  session store as it was, exactly when the user id is missing, the profile or the
  items cannot be fetched, the lockout is active or the salt text does not decode.
  Otherwise, whatever password was typed, it installs the key derived from that
  password and sets \<open>isUnlocked\<close>: a mismatch with the registration key is never
  detected.
\<close>

theorem handleUnlock_ignores_mismatch:
  "(page_error (handleUnlock pf now w) = None \<longleftrightarrow> unlock_ready w now)
   \<and> (unlock_ready w now \<longrightarrow>
        (\<exists>uid profile key.
           userId (store w) = Some uid \<and> getProfile (db w) uid = Inr profile
           \<and> deriveEncryptionKey pf (showPassword w) (kdf_salt profile) = Inr key
           \<and> isUnlocked (store (handleUnlock pf now w))
           \<and> encryptionKey (store (handleUnlock pf now w)) = Some key))
   \<and> (\<not> unlock_ready w now \<longrightarrow> store (handleUnlock pf now w) = store w)"
proof (cases "unlock_try pf now w")
  case (Inl e)
  then have "\<not> unlock_ready w now"
    using unlock_try_ready [of pf now w] by (simp add: returns_def)
  then show ?thesis by (simp add: handleUnlock_failure [OF Inl])
next
  case (Inr st)
  then have r: "unlock_ready w now"
    using unlock_try_ready [of pf now w] by (simp add: returns_def)
  from unlock_try_store [OF Inr] obtain uid profile key where
    "userId (store w) = Some uid" "getProfile (db w) uid = Inr profile"
    "deriveEncryptionKey pf (showPassword w) (kdf_salt profile) = Inr key"
    "isUnlocked st" "encryptionKey st = Some key"
    by blast
  with r show ?thesis
    by (simp add: handleUnlock_success [OF Inr])
qed

lemma sample_salt_decodes: "base64ToBuffer sample_salt = Inr sample_salt_bytes"
  unfolding sample_salt_def sample_salt_bytes_def by (rule salt16)

lemma derive_registration_key:
  "deriveEncryptionKey demo_platform registration_password sample_salt = Inr registration_key"
  by (simp add: deriveEncryptionKey_eval sample_salt_decodes registration_key_def)

lemma derive_wrong_key:
  "deriveEncryptionKey demo_platform wrong_password sample_salt = Inr wrong_key"
  by (simp add: deriveEncryptionKey_eval sample_salt_decodes wrong_key_def)

lemma keys_differ: "wrong_key \<noteq> registration_key"
  by (simp add: wrong_key_def registration_key_def key_material_def demo_platform_def
      demo_pbkdf2_def slice_bytes_def wrong_password_def registration_password_def js_def
      sample_salt_bytes_def)

lemma sealed_payload_opens:
  assumes "aead_correct pf" and "text_roundtrip pf" and "json_roundtrip pf"
  shows "\<exists>c. encryptVaultItem pf source P K = Inr (base64_text c, base64_text (map source [0..<12]))
           \<and> decryptVaultItem pf (base64_text c) (base64_text (map source [0..<12])) K = Inr P"
proof -
  let ?nonce = "map source [0..<12]"
  let ?text = "json_stringify pf P"
  have "length ?nonce = 12" by simp
  from correct_seals [OF assms(1) this]
  obtain c where s: "aes_gcm_encrypt pf (key_bytes K) ?nonce (text_encode pf ?text) = Some c"
    and o: "aes_gcm_decrypt pf (key_bytes K) ?nonce c = Some (text_encode pf ?text)"
    by blast
  have enc: "encryptVaultItem pf source P K = Inr (base64_text c, base64_text ?nonce)"
    by (simp add: encryptVaultItem_def encrypt_random sealed_seals [OF s])
  have "decrypt pf (base64_text c) (base64_text ?nonce) K
        = Inr (text_decode pf (text_encode pf ?text))"
    by (simp add: decrypt_text o)
  then have "decryptVaultItem pf (base64_text c) (base64_text ?nonce) K = Inr P"
    using assms(2,3) by (simp add: decryptVaultItem_def text_roundtrip_def json_roundtrip_def)
  with enc show ?thesis by blast
qed

lemma sample_sealed_shape:
  "sample_sealed
   = (base64_text
        (demo_text_encode (demo_json_stringify sample_payload)
         @ demo_tag (key_bytes registration_key) (map sample_bytes [0..<12])
             (demo_text_encode (demo_json_stringify sample_payload))),
      base64_text (map sample_bytes [0..<12]))"
  "encryptVaultItem demo_platform sample_bytes sample_payload registration_key = Inr sample_sealed"
proof -
  have ne: "map sample_bytes [0..<12] \<noteq> []" by simp
  have e: "encryptVaultItem demo_platform sample_bytes sample_payload registration_key
           = Inr (base64_text
                    (demo_text_encode (demo_json_stringify sample_payload)
                     @ demo_tag (key_bytes registration_key) (map sample_bytes [0..<12])
                         (demo_text_encode (demo_json_stringify sample_payload))),
                  base64_text (map sample_bytes [0..<12]))"
    unfolding encryptVaultItem_def encrypt_random sealed_def
    by (simp add: demo_platform_def demo_seals [OF ne])
  then show "sample_sealed
   = (base64_text
        (demo_text_encode (demo_json_stringify sample_payload)
         @ demo_tag (key_bytes registration_key) (map sample_bytes [0..<12])
             (demo_text_encode (demo_json_stringify sample_payload))),
      base64_text (map sample_bytes [0..<12]))"
    by (simp add: sample_sealed_def)
  with e show "encryptVaultItem demo_platform sample_bytes sample_payload registration_key
               = Inr sample_sealed"
    by simp
qed

lemma sample_row_sealed:
  "encryptVaultItem demo_platform sample_bytes sample_payload registration_key
   = Inr (ciphertext sample_row, iv sample_row)"
  by (simp add: sample_sealed_shape(2) sample_row_def)

lemma sample_keys_prefix:
  "pad_to 3 (key_bytes wrong_key) \<noteq> pad_to 3 (key_bytes registration_key)"
  by (simp add: wrong_key_def registration_key_def key_material_def demo_platform_def
      demo_pbkdf2_def slice_bytes_def wrong_password_def registration_password_def js_def
      sample_salt_bytes_def pad_to_def)

lemma sample_row_wrong_key:
  "decryptVaultItem demo_platform (ciphertext sample_row) (iv sample_row) wrong_key
   = Inl OperationError"
proof -
  have "aes_gcm_decrypt demo_platform (key_bytes wrong_key) (map sample_bytes [0..<12])
          (demo_text_encode (demo_json_stringify sample_payload)
           @ demo_tag (key_bytes registration_key) (map sample_bytes [0..<12])
               (demo_text_encode (demo_json_stringify sample_payload)))
        = None"
    by (simp add: demo_platform_def demo_rejects_key [OF sample_keys_prefix])
  then have "decrypt demo_platform (ciphertext sample_row) (iv sample_row) wrong_key
             = Inl OperationError"
    by (simp add: sample_row_def sample_sealed_shape(1) decrypt_text)
  then show ?thesis by (rule decrypt_fails_vault_item)
qed

lemma sample_row_right_key:
  "decryptVaultItem demo_platform (ciphertext sample_row) (iv sample_row) registration_key
   = Inr sample_payload"
proof -
  from sealed_payload_opens [OF demo_aead_correct_ok demo_text_roundtrip_ok
      demo_json_roundtrip_ok, of sample_bytes sample_payload registration_key]
  obtain c where e: "encryptVaultItem demo_platform sample_bytes sample_payload registration_key
                     = Inr (base64_text c, base64_text (map sample_bytes [0..<12]))"
    and d: "decryptVaultItem demo_platform (base64_text c)
              (base64_text (map sample_bytes [0..<12])) registration_key = Inr sample_payload"
    by blast
  from e have s: "sample_sealed = (base64_text c, base64_text (map sample_bytes [0..<12]))"
    by (simp add: sample_sealed_shape(2))
  have "ciphertext sample_row = base64_text c"
    and "iv sample_row = base64_text (map sample_bytes [0..<12])"
    by (simp_all add: sample_row_def s)
  with d show ?thesis by simp
qed

lemma sample_world_facts:
  "userId (store (sample_world profile typed)) = Some sample_uid"
  "sample_uid \<noteq> []"
  "getProfile (db (sample_world profile typed)) sample_uid = Inr profile"
  "getVaultItems (db (sample_world profile typed)) sample_uid = Inr [sample_row]"
  "showPassword (sample_world profile typed) = typed"
  by (simp_all add: sample_world_def sample_db_def setAuthenticated_def getProfile_def
      getVaultItems_def sample_uid_def js_def sample_row_def)

lemma sample_profile_facts:
  "kdf_salt sample_profile = sample_salt" "not_locked sample_profile now"
  "failed_unlock_attempts sample_profile = 0" "failed_unlock_locked_until sample_profile = None"
  by (simp_all add: sample_profile_def not_locked_def)

lemma sample_unlock_wrong:
  "unlock_try demo_platform 0 (sample_world sample_profile wrong_password)
   = Inr (setVaultData [] []
            (setUnlocked wrong_key sample_salt
               (store (sample_world sample_profile wrong_password))))"
proof -
  have k: "CryptoKey (slice_bytes 0 32
             (key_material demo_platform (showPassword (sample_world sample_profile wrong_password))
                sample_salt_bytes)) = wrong_key"
    by (simp add: sample_world_facts wrong_key_def)
  have salt': "base64ToBuffer (kdf_salt sample_profile) = Inr sample_salt_bytes"
    by (simp add: sample_profile_facts sample_salt_decodes)
  show ?thesis
    unfolding unlock_try_success [OF sample_world_facts(1,2,3) sample_profile_facts(2) salt'
        sample_world_facts(4)] k
    by (simp add: sample_row_wrong_key sample_profile_facts)
qed

text \<open>
  Claim C1 as stated fails: with the item sealed under the registration key in the
  store, unlocking with another password derives another key, the item fails to
  decrypt, and the session still becomes unlocked, holding the wrong key and no item.
\<close>

theorem handleUnlock_unlocks_on_wrong_password:
  "deriveEncryptionKey demo_platform registration_password sample_salt = Inr registration_key
   \<and> encryptVaultItem demo_platform sample_bytes sample_payload registration_key
       = Inr (ciphertext sample_row, iv sample_row)
   \<and> deriveEncryptionKey demo_platform wrong_password sample_salt = Inr wrong_key
   \<and> wrong_key \<noteq> registration_key
   \<and> decryptVaultItem demo_platform (ciphertext sample_row) (iv sample_row) wrong_key
       = Inl OperationError
   \<and> page_error (handleUnlock demo_platform 0 (sample_world sample_profile wrong_password)) = None
   \<and> isUnlocked (store (handleUnlock demo_platform 0 (sample_world sample_profile wrong_password)))
   \<and> encryptionKey (store (handleUnlock demo_platform 0 (sample_world sample_profile wrong_password)))
       = Some wrong_key
   \<and> items (store (handleUnlock demo_platform 0 (sample_world sample_profile wrong_password))) = []"
proof -
  have h: "page_error (handleUnlock demo_platform 0 (sample_world sample_profile wrong_password)) = None
     \<and> isUnlocked (store (handleUnlock demo_platform 0 (sample_world sample_profile wrong_password)))
     \<and> encryptionKey (store (handleUnlock demo_platform 0 (sample_world sample_profile wrong_password)))
         = Some wrong_key
     \<and> items (store (handleUnlock demo_platform 0 (sample_world sample_profile wrong_password))) = []"
    by (simp add: handleUnlock_success [OF sample_unlock_wrong] setVaultData_def setUnlocked_def)
  from derive_registration_key sample_row_sealed derive_wrong_key keys_differ sample_row_wrong_key h
  show ?thesis by (simp only: simp_thms)
qed

lemma sample_unlock_right:
  assumes "kdf_salt profile = sample_salt" and "not_locked profile 0"
  shows "\<exists>its. unlock_try demo_platform 0 (sample_world profile registration_password)
           = Inr (setVaultData its []
                    (setUnlocked registration_key sample_salt
                       (store (sample_world profile registration_password))))"
proof -
  have k: "CryptoKey (slice_bytes 0 32
             (key_material demo_platform
                (showPassword (sample_world profile registration_password))
                sample_salt_bytes)) = registration_key"
    by (simp add: sample_world_facts registration_key_def)
  have salt': "base64ToBuffer (kdf_salt profile) = Inr sample_salt_bytes"
    by (simp add: assms(1) sample_salt_decodes)
  show ?thesis
    unfolding unlock_try_success [OF sample_world_facts(1,2,3) assms(2) salt'
        sample_world_facts(4)] k assms(1)
    by blast
qed

lemma sample_ready: "unlock_ready (sample_world sample_profile typed) 0"
  by (simp add: unlock_ready_def sample_world_facts sample_profile_facts sample_salt_decodes
      returns_def)

theorem handleUnlock_ignores_mismatch_witness:
  "unlock_ready (sample_world sample_profile registration_password) 0
   \<and> page_error (handleUnlock demo_platform 0 (sample_world sample_profile registration_password))
       = None
   \<and> isUnlocked (store (handleUnlock demo_platform 0
         (sample_world sample_profile registration_password)))
   \<and> encryptionKey (store (handleUnlock demo_platform 0
         (sample_world sample_profile registration_password))) = Some registration_key"
proof -
  let ?w = "sample_world sample_profile registration_password"
  have r: "unlock_ready ?w 0" by (rule sample_ready)
  from handleUnlock_ignores_mismatch [of demo_platform 0 ?w] r
  obtain uid profile key where e: "page_error (handleUnlock demo_platform 0 ?w) = None"
    and u: "userId (store ?w) = Some uid" and p: "getProfile (db ?w) uid = Inr profile"
    and d: "deriveEncryptionKey demo_platform (showPassword ?w) (kdf_salt profile) = Inr key"
    and i: "isUnlocked (store (handleUnlock demo_platform 0 ?w))"
    and k: "encryptionKey (store (handleUnlock demo_platform 0 ?w)) = Some key"
    by blast
  from u have "uid = sample_uid" by (simp add: sample_world_facts)
  with p have "profile = sample_profile" by (simp add: sample_world_facts)
  with d have "key = registration_key"
    by (simp add: sample_world_facts sample_profile_facts derive_registration_key)
  with r e i k show ?thesis by (simp only: simp_thms)
qed

lemma updateProfile_keeps_lockout:
  assumes "updateProfile d u updates = Inr d'" and "profiles d' u' = Some row'"
  shows "\<exists>row. profiles d u' = Some row
           \<and> failed_unlock_attempts row' = failed_unlock_attempts row
           \<and> failed_unlock_locked_until row' = failed_unlock_locked_until row"
  using assms
  by (auto simp: updateProfile_def update_row_def split: if_splits option.splits)

text \<open>
  Claim C2, as the code has it. \<open>handleUnlock\<close> writes nothing to the remote store, so
  the failed-unlock counter and the lockout time stay as they are; while the lockout
  time of the profile is in the future it fails with the account-locked error, before
  any derivation and whatever the password, and leaves the session store as it was;
  and \<open>updateProfile\<close> cannot change the two lockout columns, which are not in its
  argument type.
\<close>

theorem handleUnlock_never_counts:
  "db (handleUnlock pf now w) = db w
   \<and> (userId (store w) = Some uid \<and> uid \<noteq> [] \<and> getProfile (db w) uid = Inr profile
        \<and> failed_unlock_locked_until profile = Some t \<and> now < t
      \<longrightarrow> page_error (handleUnlock pf now w) = Some (AccountLocked (lockout_minutes t now))
          \<and> store (handleUnlock pf now w) = store w)
   \<and> (updateProfile d u updates = Inr d' \<and> profiles d' u' = Some row'
      \<longrightarrow> (\<exists>row. profiles d u' = Some row
             \<and> failed_unlock_attempts row' = failed_unlock_attempts row
             \<and> failed_unlock_locked_until row' = failed_unlock_locked_until row))"
proof (intro conjI impI)
  show "db (handleUnlock pf now w) = db w" by (rule handleUnlock_db)
next
  assume a: "userId (store w) = Some uid \<and> uid \<noteq> [] \<and> getProfile (db w) uid = Inr profile
        \<and> failed_unlock_locked_until profile = Some t \<and> now < t"
  then have "unlock_try pf now w = Inl (AccountLocked (lockout_minutes t now))"
    using unlock_try_locked [of w uid profile t now pf] by blast
  from handleUnlock_failure [OF this]
  show "page_error (handleUnlock pf now w) = Some (AccountLocked (lockout_minutes t now))"
    and "store (handleUnlock pf now w) = store w"
    by simp_all
next
  assume "updateProfile d u updates = Inr d' \<and> profiles d' u' = Some row'"
  then show "\<exists>row. profiles d u' = Some row
             \<and> failed_unlock_attempts row' = failed_unlock_attempts row
             \<and> failed_unlock_locked_until row' = failed_unlock_locked_until row"
    using updateProfile_keeps_lockout by blast
qed

theorem handleUnlock_never_counts_witness:
  "userId (store (sample_world locked_profile registration_password)) = Some sample_uid
   \<and> sample_uid \<noteq> []
   \<and> getProfile (db (sample_world locked_profile registration_password)) sample_uid
       = Inr locked_profile
   \<and> failed_unlock_locked_until locked_profile = Some 120000 \<and> (0::int) < 120000
   \<and> deriveEncryptionKey demo_platform registration_password (kdf_salt locked_profile)
       = Inr registration_key
   \<and> page_error (handleUnlock demo_platform 0 (sample_world locked_profile registration_password))
       = Some (AccountLocked 2)
   \<and> store (handleUnlock demo_platform 0 (sample_world locked_profile registration_password))
       = store (sample_world locked_profile registration_password)
   \<and> db (handleUnlock demo_platform 0 (sample_world locked_profile registration_password))
       = db (sample_world locked_profile registration_password)"
proof -
  let ?w = "sample_world locked_profile registration_password"
  have l: "failed_unlock_locked_until locked_profile = Some 120000"
    by (simp add: locked_profile_def)
  have s: "kdf_salt locked_profile = sample_salt"
    by (simp add: locked_profile_def sample_profile_facts)
  have m: "lockout_minutes 120000 0 = 2" by (simp add: lockout_minutes_def)
  from handleUnlock_never_counts [of demo_platform 0 ?w sample_uid locked_profile 120000]
    sample_world_facts l
  have "page_error (handleUnlock demo_platform 0 ?w) = Some (AccountLocked 2)
        \<and> store (handleUnlock demo_platform 0 ?w) = store ?w
        \<and> db (handleUnlock demo_platform 0 ?w) = db ?w"
    by (simp add: m)
  with sample_world_facts l s derive_registration_key
  show ?thesis by simp
qed

text \<open>
  Claim C2 as stated fails: after an unlock with the wrong password, in which the only
  item fails to decrypt, the stored profile is unchanged (counter 0, no lockout time);
  and a successful unlock of a profile whose counter is 3 leaves the counter at 3.
\<close>

theorem handleUnlock_keeps_counter:
  "decryptVaultItem demo_platform (ciphertext sample_row) (iv sample_row) wrong_key
     = Inl OperationError
   \<and> profiles (db (sample_world sample_profile wrong_password)) sample_uid = Some sample_profile
   \<and> failed_unlock_attempts sample_profile = 0
   \<and> failed_unlock_locked_until sample_profile = None
   \<and> profiles (db (handleUnlock demo_platform 0 (sample_world sample_profile wrong_password)))
        sample_uid = Some sample_profile
   \<and> failed_unlock_attempts counted_profile = 3
   \<and> page_error (handleUnlock demo_platform 0 (sample_world counted_profile registration_password))
       = None
   \<and> profiles (db (handleUnlock demo_platform 0 (sample_world counted_profile registration_password)))
        sample_uid = Some counted_profile"
proof -
  have p: "profiles (db (sample_world profile typed)) sample_uid = Some profile" for profile typed
    by (simp add: sample_world_def sample_db_def)
  have c: "failed_unlock_attempts counted_profile = 3" "kdf_salt counted_profile = sample_salt"
    "not_locked counted_profile 0"
    by (simp_all add: counted_profile_def sample_profile_facts not_locked_def sample_profile_def)
  from sample_unlock_right [OF c(2,3)] obtain its where
    "unlock_try demo_platform 0 (sample_world counted_profile registration_password)
       = Inr (setVaultData its []
                (setUnlocked registration_key sample_salt
                   (store (sample_world counted_profile registration_password))))"
    by blast
  from handleUnlock_success [OF this]
  have e: "page_error (handleUnlock demo_platform 0
             (sample_world counted_profile registration_password)) = None"
    by simp
  from sample_row_wrong_key p sample_profile_facts(3,4) c(1) e show ?thesis
    by (simp add: handleUnlock_db)
qed

end
